theory Spec2Isabelle
  imports Complex_Main "HOL-Library.AList" "HOL-Library.Char_ord" "HOL-Library.List_Lexorder"
begin

section \<open>Python values used by the resume parser\<close>

text \<open>
  The subject is the class \<open>EnhancedResumeParser\<close> of \<open>fixed_enhanced_resume_parser.py\<close>.
  A Python \<open>str\<close> is modelled as a \<open>string\<close>, that is a list of code points below 256
  (Latin-1). The character predicates below are Python's Unicode predicates restricted
  to that range: \<open>str.isspace\<close> (also the class \<open>\s\<close> of \<open>re\<close>), \<open>str.isdecimal\<close>
  (the class \<open>\d\<close>), the cased letters behind \<open>str.isupper\<close>, \<open>str.islower\<close> and
  \<open>str.lower\<close>, and \<open>str.isalnum\<close> (with the underscore, the class \<open>\w\<close>).
  Text with code points from 256 on (for instance the bullet U+2022) is outside the model.
\<close>

definition py_isspace :: "char \<Rightarrow> bool" where
  "py_isspace c = (let n = (of_char c :: nat) in
     (9 \<le> n \<and> n \<le> 13) \<or> (28 \<le> n \<and> n \<le> 32) \<or> n = 133 \<or> n = 160)"

definition py_isdecimal :: "char \<Rightarrow> bool" where
  "py_isdecimal c = (let n = (of_char c :: nat) in 48 \<le> n \<and> n \<le> 57)"

definition py_isupper_c :: "char \<Rightarrow> bool" where
  "py_isupper_c c = (let n = (of_char c :: nat) in
     (65 \<le> n \<and> n \<le> 90) \<or> (192 \<le> n \<and> n \<le> 214) \<or> (216 \<le> n \<and> n \<le> 222))"

definition py_islower_c :: "char \<Rightarrow> bool" where
  "py_islower_c c = (let n = (of_char c :: nat) in
     (97 \<le> n \<and> n \<le> 122) \<or> n = 170 \<or> n = 181 \<or> n = 186 \<or>
     (223 \<le> n \<and> n \<le> 246) \<or> (248 \<le> n \<and> n \<le> 255))"

definition py_isalnum :: "char \<Rightarrow> bool" where
  "py_isalnum c = (let n = (of_char c :: nat) in
     py_isdecimal c \<or> py_isupper_c c \<or> py_islower_c c \<or>
     n = 178 \<or> n = 179 \<or> n = 185 \<or> (188 \<le> n \<and> n \<le> 190))"

definition is_word :: "char \<Rightarrow> bool" where
  "is_word c = (py_isalnum c \<or> c = CHR ''_'')"

definition py_lower_c :: "char \<Rightarrow> char" where
  "py_lower_c c = (if py_isupper_c c then char_of ((of_char c :: nat) + 32) else c)"

definition has_latin1_upper :: "char \<Rightarrow> bool" where
  \<comment> \<open>the lower-case letters whose upper-case partner is again below 256\<close>
  "has_latin1_upper c = (let n = (of_char c :: nat) in
     (97 \<le> n \<and> n \<le> 122) \<or> (224 \<le> n \<and> n \<le> 246) \<or> (248 \<le> n \<and> n \<le> 254))"

definition py_lower :: "string \<Rightarrow> string" where
  "py_lower s = map py_lower_c s"

definition py_isupper :: "string \<Rightarrow> bool" where
  \<comment> \<open>\<open>str.isupper\<close>: no lower-case character and at least one upper-case character\<close>
  "py_isupper s = (\<not> list_ex py_islower_c s \<and> list_ex py_isupper_c s)"

definition py_islower :: "string \<Rightarrow> bool" where
  "py_islower s = (\<not> list_ex py_isupper_c s \<and> list_ex py_islower_c s)"

definition py_strip :: "string \<Rightarrow> string" where
  \<comment> \<open>\<open>str.strip()\<close>\<close>
  "py_strip s = rev (dropWhile py_isspace (rev (dropWhile py_isspace s)))"

fun split_ws :: "string \<Rightarrow> string \<Rightarrow> string list" where
  "split_ws cur [] = (if cur = [] then [] else [rev cur])"
| "split_ws cur (c # cs) =
     (if py_isspace c then (if cur = [] then split_ws [] cs else rev cur # split_ws [] cs)
      else split_ws (c # cur) cs)"

definition py_split :: "string \<Rightarrow> string list" where
  \<comment> \<open>\<open>str.split()\<close> without argument: the maximal runs of non-whitespace\<close>
  "py_split s = split_ws [] s"

fun split_on :: "char \<Rightarrow> string \<Rightarrow> string list" where
  \<comment> \<open>\<open>str.split(sep)\<close> for a separator of one character\<close>
  "split_on d [] = [[]]"
| "split_on d (c # cs) =
     (if c = d then [] # split_on d cs
      else (case split_on d cs of [] \<Rightarrow> [[c]] | y # ys \<Rightarrow> (c # y) # ys))"

fun py_in :: "string \<Rightarrow> string \<Rightarrow> bool" where
  \<comment> \<open>\<open>sub in s\<close> on strings\<close>
  "py_in sub [] = (sub = [])"
| "py_in sub (c # cs) = (take (length sub) (c # cs) = sub \<or> py_in sub cs)"

definition startswith :: "string \<Rightarrow> string \<Rightarrow> bool" where
  "startswith s pre = (take (length pre) s = pre)"

fun py_join :: "string \<Rightarrow> string list \<Rightarrow> string" where
  "py_join sep [] = []"
| "py_join sep [x] = x"
| "py_join sep (x # xs) = x @ sep @ py_join sep xs"

function show_nat :: "nat \<Rightarrow> string" where
  \<comment> \<open>\<open>str(n)\<close> for a non-negative integer\<close>
  "show_nat n = (if n < 10 then [char_of (48 + n)]
                 else show_nat (n div 10) @ [char_of (48 + n mod 10)])"
  by pat_completeness auto
termination
  by (relation "measure id") auto

declare show_nat.simps [simp del]

datatype exn = NameError | ValueError | AttributeError | TypeError | OtherException string

definition try_except :: "exn + 'a \<Rightarrow> (exn \<Rightarrow> exn + 'a) \<Rightarrow> exn + 'a" where
  \<comment> \<open>\<open>try: body  except Exception as e: handler\<close>; every exception of the model derives from
      \<open>Exception\<close>\<close>
  "try_except body handler = (case body of Inl e \<Rightarrow> handler e | Inr v \<Rightarrow> Inr v)"

definition and_then :: "exn + 'a \<Rightarrow> ('a \<Rightarrow> exn + 'b) \<Rightarrow> exn + 'b" where
  \<comment> \<open>sequencing: an exception of the first computation skips the second\<close>
  "and_then x f = (case x of Inl e \<Rightarrow> Inl e | Inr v \<Rightarrow> f v)"

definition py_int :: "nat \<Rightarrow> string \<Rightarrow> exn + nat" where
  \<comment> \<open>\<open>int(s)\<close> on a string of decimal digits, the only strings the parser passes to it.
      \<open>maxd\<close> is \<open>sys.get_int_max_str_digits()\<close> (4300 by default since CPython 3.11, 0 for
      no limit): a longer digit string raises ValueError.\<close>
  "py_int maxd s =
     (if s = [] \<or> \<not> list_all py_isdecimal s then Inl ValueError
      else if 0 < maxd \<and> maxd < length s then Inl ValueError
      else Inr (foldl (\<lambda>a c. 10 * a + ((of_char c :: nat) - 48)) 0 s))"

section \<open>The regular expressions of module \<open>re\<close>\<close>

text \<open>
  A backtracking matcher in the order of CPython's \<open>re\<close>: \<open>rx_match\<close> returns the states
  reachable after the pattern, most preferred first. A state is the character before the
  position (for \<open>\b\<close> and \<open>^\<close>), the rest of the subject and the groups captured so far.
  The flag \<open>ic\<close> is \<open>re.IGNORECASE\<close>.
\<close>

datatype cls = Chr char | Rng char char | ClsD | ClsS | ClsW | ClsNotS

definition in_rng :: "char \<Rightarrow> char \<Rightarrow> char \<Rightarrow> bool" where
  "in_rng a b x = ((of_char a :: nat) \<le> of_char x \<and> (of_char x :: nat) \<le> of_char b)"

fun in_cls :: "bool \<Rightarrow> cls \<Rightarrow> char \<Rightarrow> bool" where
  "in_cls ic (Chr c) x = (x = c \<or> (ic \<and> py_lower_c x = py_lower_c c))"
| "in_cls ic (Rng a b) x =
     (in_rng a b x \<or>
      (ic \<and> (in_rng a b (py_lower_c x) \<or>
             (has_latin1_upper x \<and> in_rng a b (char_of ((of_char x :: nat) - 32))))))"
| "in_cls ic ClsD x = py_isdecimal x"
| "in_cls ic ClsS x = py_isspace x"
| "in_cls ic ClsW x = is_word x"
| "in_cls ic ClsNotS x = (\<not> py_isspace x)"

definition in_set :: "bool \<Rightarrow> cls list \<Rightarrow> char \<Rightarrow> bool" where
  "in_set ic cl x = list_ex (\<lambda>c. in_cls ic c x) cl"

datatype rx =
    Lit string          \<comment> \<open>a literal (escaped) string\<close>
  | CSet "cls list"     \<comment> \<open>\<open>[...]\<close>\<close>
  | NSet "cls list"     \<comment> \<open>\<open>[^...]\<close>\<close>
  | Seq rx rx
  | Alt rx rx           \<comment> \<open>\<open>a|b\<close>\<close>
  | Star rx             \<comment> \<open>\<open>r*\<close>\<close>
  | LazyStar rx         \<comment> \<open>\<open>r*?\<close>\<close>
  | Opt rx              \<comment> \<open>\<open>r?\<close>\<close>
  | Grp nat rx          \<comment> \<open>capturing group number n\<close>
  | Bol                 \<comment> \<open>\<open>^\<close> without \<open>re.MULTILINE\<close>\<close>
  | Eol                 \<comment> \<open>\<open>$\<close> without \<open>re.MULTILINE\<close>\<close>
  | Wb                  \<comment> \<open>\<open>\b\<close>\<close>
  | Look rx             \<comment> \<open>\<open>(?=r)\<close>\<close>

type_synonym mstate = "char option \<times> string \<times> (nat \<times> string) list"

definition lit_eq :: "bool \<Rightarrow> string \<Rightarrow> string \<Rightarrow> bool" where
  "lit_eq ic s t = (if ic then py_lower s = py_lower t else s = t)"

function (sequential) rx_match :: "bool \<Rightarrow> rx \<Rightarrow> mstate \<Rightarrow> mstate list" where
  "rx_match ic (Lit s) (p, xs, cs) =
     (if length s \<le> length xs \<and> lit_eq ic s (take (length s) xs)
      then [(if s = [] then p else Some (last (take (length s) xs)), drop (length s) xs, cs)]
      else [])"
| "rx_match ic (CSet cl) (p, [], cs) = []"
| "rx_match ic (CSet cl) (p, x # xs, cs) = (if in_set ic cl x then [(Some x, xs, cs)] else [])"
| "rx_match ic (NSet cl) (p, [], cs) = []"
| "rx_match ic (NSet cl) (p, x # xs, cs) = (if in_set ic cl x then [] else [(Some x, xs, cs)])"
| "rx_match ic (Seq r1 r2) st = concat (map (rx_match ic r2) (rx_match ic r1 st))"
| "rx_match ic (Alt r1 r2) st = rx_match ic r1 st @ rx_match ic r2 st"
| "rx_match ic (Star r) (p, xs, cs) =
     concat (map (\<lambda>st'. if length (fst (snd st')) < length xs then rx_match ic (Star r) st' else [])
                 (rx_match ic r (p, xs, cs))) @ [(p, xs, cs)]"
| "rx_match ic (LazyStar r) (p, xs, cs) =
     (p, xs, cs) #
     concat (map (\<lambda>st'. if length (fst (snd st')) < length xs then rx_match ic (LazyStar r) st'
                         else [])
                 (rx_match ic r (p, xs, cs)))"
| "rx_match ic (Opt r) st = rx_match ic r st @ [st]"
| "rx_match ic (Grp n r) (p, xs, cs) =
     map (\<lambda>(p', xs', cs'). (p', xs', (n, take (length xs - length xs') xs) # cs'))
         (rx_match ic r (p, xs, cs))"
| "rx_match ic Bol (p, xs, cs) = (if p = None then [(p, xs, cs)] else [])"
| "rx_match ic Eol (p, xs, cs) = (if xs = [] \<or> xs = [CHR 0x0A] then [(p, xs, cs)] else [])"
| "rx_match ic Wb (p, xs, cs) =
     (let a = (case p of None \<Rightarrow> False | Some c \<Rightarrow> is_word c);
          b = (case xs of [] \<Rightarrow> False | x # _ \<Rightarrow> is_word x)
      in if a \<noteq> b then [(p, xs, cs)] else [])"
| "rx_match ic (Look r) st = (if rx_match ic r st = [] then [] else [st])"
  by pat_completeness auto
termination
  by (relation "measures [\<lambda>(ic, r, st). size r, \<lambda>(ic, r, p, xs, cs). length xs]") auto

text \<open>Repetition counts and sequences of several items, written with the constructors above.\<close>

definition rx_plus :: "rx \<Rightarrow> rx" where
  \<comment> \<open>\<open>r+\<close>\<close>
  "rx_plus r = Seq r (Star r)"

fun rx_cat :: "rx list \<Rightarrow> rx" where
  "rx_cat [] = Lit []"
| "rx_cat [r] = r"
| "rx_cat (r # rs) = Seq r (rx_cat rs)"

fun rx_alts :: "rx list \<Rightarrow> rx" where
  "rx_alts [] = NSet [ClsS, ClsNotS]"
| "rx_alts [r] = r"
| "rx_alts (r # rs) = Alt r (rx_alts rs)"

fun rx_rep :: "nat \<Rightarrow> rx \<Rightarrow> rx" where
  \<comment> \<open>\<open>r{n}\<close>\<close>
  "rx_rep 0 r = Lit []"
| "rx_rep (Suc 0) r = r"
| "rx_rep (Suc n) r = Seq r (rx_rep n r)"

fun rx_upto :: "nat \<Rightarrow> rx \<Rightarrow> rx" where
  \<comment> \<open>\<open>r{0,n}\<close>, greedy\<close>
  "rx_upto 0 r = Lit []"
| "rx_upto (Suc 0) r = Opt r"
| "rx_upto (Suc n) r = Opt (Seq r (rx_upto n r))"

definition rx_range :: "nat \<Rightarrow> nat \<Rightarrow> rx \<Rightarrow> rx" where
  \<comment> \<open>\<open>r{lo,hi}\<close>\<close>
  "rx_range lo hi r = (if lo = 0 then rx_upto hi r else Seq (rx_rep lo r) (rx_upto (hi - lo) r))"

definition rx_atleast :: "nat \<Rightarrow> rx \<Rightarrow> rx" where
  \<comment> \<open>\<open>r{n,}\<close>\<close>
  "rx_atleast n r = Seq (rx_rep n r) (Star r)"

fun search_from :: "bool \<Rightarrow> rx \<Rightarrow> char option \<Rightarrow> string \<Rightarrow> (string \<times> mstate) option" where
  \<comment> \<open>the leftmost position with a match, and the preferred match there\<close>
  "search_from ic r p [] =
     (case rx_match ic r (p, [], []) of [] \<Rightarrow> None | st # _ \<Rightarrow> Some ([], st))"
| "search_from ic r p (x # xs) =
     (case rx_match ic r (p, x # xs, []) of
        [] \<Rightarrow> search_from ic r (Some x) xs
      | st # _ \<Rightarrow> Some (x # xs, st))"

record rmatch =
  group0 :: string
  captures :: "(nat \<times> string) list"

definition to_rmatch :: "string \<times> mstate \<Rightarrow> rmatch" where
  "to_rmatch = (\<lambda>(s0, (p, xs, cs)). \<lparr>group0 = take (length s0 - length xs) s0, captures = cs\<rparr>)"

definition re_search :: "bool \<Rightarrow> rx \<Rightarrow> string \<Rightarrow> rmatch option" where
  \<comment> \<open>\<open>re.search(pattern, text, flags)\<close>\<close>
  "re_search ic r text = map_option to_rmatch (search_from ic r None text)"

definition match_group :: "rmatch \<Rightarrow> nat \<Rightarrow> string option" where
  \<comment> \<open>\<open>match.group(n)\<close> for \<open>n \<ge> 1\<close>: None when the group took no part in the match\<close>
  "match_group mt n = map_of (captures mt) n"

definition group_str :: "rmatch \<Rightarrow> nat \<Rightarrow> exn + string" where
  \<comment> \<open>\<open>match.group(n)\<close> where a string method is called on the result, which raises
      AttributeError on None\<close>
  "group_str mt n = (case match_group mt n of None \<Rightarrow> Inl AttributeError | Some s \<Rightarrow> Inr s)"

function findall_from :: "bool \<Rightarrow> rx \<Rightarrow> char option \<Rightarrow> string \<Rightarrow> rmatch list" where
  \<comment> \<open>the successive non-overlapping matches. Every pattern this program passes to
      \<open>re.findall\<close> consumes at least one character; after a match that does not move
      past the start of the search the search resumes one character later.\<close>
  "findall_from ic r p xs =
     (case search_from ic r p xs of
        None \<Rightarrow> []
      | Some (s0, (p', xs', cs)) \<Rightarrow>
          to_rmatch (s0, (p', xs', cs)) #
          (if length xs' < length xs then findall_from ic r p' xs'
           else (case xs of [] \<Rightarrow> [] | c # ys \<Rightarrow> findall_from ic r (Some c) ys)))"
  by pat_completeness auto
termination
  by (relation "measure (\<lambda>(ic, r, p, xs). length xs)") auto

declare findall_from.simps [simp del]

definition findall :: "bool \<Rightarrow> rx \<Rightarrow> nat \<Rightarrow> string \<Rightarrow> string list" where
  \<comment> \<open>\<open>re.findall\<close> for a pattern with \<open>ng\<close> groups, \<open>ng\<close> at most 1: the whole matches when
      there is no group, else the text of group 1 (empty when the group took no part)\<close>
  "findall ic r ng text =
     map (\<lambda>mt. if ng = 0 then group0 mt else (case match_group mt 1 of None \<Rightarrow> [] | Some s \<Rightarrow> s))
         (findall_from ic r None text)"

fun split_runs :: "(char \<Rightarrow> bool) \<Rightarrow> bool \<Rightarrow> string \<Rightarrow> string list" where
  \<comment> \<open>\<open>re.split('[...]+', s)\<close> for a character class: split at the maximal runs of
      delimiters; the flag says that the previous character was a delimiter\<close>
  "split_runs P b [] = [[]]"
| "split_runs P b (c # cs) =
     (if P c then (if b then split_runs P True cs else [] # split_runs P True cs)
      else (case split_runs P False cs of [] \<Rightarrow> [[c]] | y # ys \<Rightarrow> (c # y) # ys))"

fun collapse_ws :: "bool \<Rightarrow> string \<Rightarrow> string" where
  \<comment> \<open>\<open>re.sub(r'\s+', ' ', s)\<close>; the flag says that the previous character was whitespace\<close>
  "collapse_ws b [] = []"
| "collapse_ws b (c # cs) =
     (if py_isspace c then (if b then collapse_ws True cs else CHR '' '' # collapse_ws True cs)
      else c # collapse_ws False cs)"

section \<open>The data model\<close>

record job =
  title :: string
  company :: string
  dates :: string
  description :: "string list option"   \<comment> \<open>None: the dict has no key \<open>description\<close>\<close>

text \<open>
  The result dict of \<open>parse_resume\<close>. A Python float is modelled by the rational number
  its literal denotes, so that sums and quotients of scores are exact; a dict of scores is
  an association list in insertion order.
\<close>

record parsed_data =
  name :: "string option"
  email :: "string option"
  phone :: "string option"
  skills :: "string list"
  experience :: "string option"
  education :: "string option"
  work_history :: "job list"
  location :: "string option"
  salary_expectation :: "string option"
  raw_text :: string
  confidence_scores :: "(string \<times> rat) list"

definition create_empty_result :: parsed_data where
  "create_empty_result =
     \<lparr>name = None, email = None, phone = None, skills = [], experience = None,
      education = None, work_history = [], location = None, salary_expectation = None,
      raw_text = [],
      confidence_scores =
        [(''name'', 0), (''email'', 0), (''phone'', 0), (''skills'', 0), (''experience'', 0),
         (''education'', 0), (''overall'', 0)]\<rparr>"

section \<open>The confidence scorer\<close>

definition truthy :: "string option \<Rightarrow> bool" where
  \<comment> \<open>Python's truth value of \<open>parsed_data.get(key)\<close>: neither None nor the empty string\<close>
  "truthy v = (case v of None \<Rightarrow> False | Some s \<Rightarrow> s \<noteq> [])"

definition calculate_confidence_scores :: "parsed_data \<Rightarrow> string \<Rightarrow> (string \<times> rat) list" where
  "calculate_confidence_scores parsed text =
     (let scores = [];
          scores = AList.update ''name''
            (if truthy (name parsed) \<and> 2 \<le> length (py_split (the (name parsed))) then 9 / 10
             else if truthy (name parsed) then 6 / 10
             else 1 / 10) scores;
          scores = AList.update ''email'' (if truthy (email parsed) then 95 / 100 else 0) scores;
          scores = AList.update ''phone'' (if truthy (phone parsed) then 85 / 100 else 0) scores;
          scores = AList.update ''skills''
            (if 5 \<le> length (skills parsed) then 9 / 10
             else if 3 \<le> length (skills parsed) then 7 / 10
             else if 1 \<le> length (skills parsed) then 5 / 10
             else 1 / 10) scores;
          scores = AList.update ''experience''
            (if truthy (experience parsed) then 8 / 10 else 3 / 10) scores;
          scores = AList.update ''education''
            (if truthy (education parsed) then 8 / 10 else 2 / 10) scores;
          scores = AList.update ''overall''
            (sum_list (map snd scores) / of_nat (length scores)) scores
      in scores)"

section \<open>The document loader\<close>

text \<open>
  What the loader reads from outside the program is a parameter: the flags set by the
  imports at the top of the module, the pages \<open>PyPDF2.PdfReader\<close> yields for a path (each
  page with the outcome of \<open>extract_text()\<close>), the document \<open>docx.Document\<close> yields, the year
  of \<open>datetime.now()\<close> and the interpreter's limit on the digits of \<open>int(str)\<close>.
\<close>

record document =
  paragraphs :: "string list"
  tables :: "string list list list"   \<comment> \<open>table, row, cell text\<close>

record env =
  pdf_parsing_available :: bool
  docx_parsing_available :: bool
  spacy_available :: bool
  pdf_reader_pages :: "string \<Rightarrow> exn + (exn + string) list"
  docx_document :: "string \<Rightarrow> exn + document"
  now_year :: nat
  int_max_str_digits :: nat

fun pdf_pages_text :: "string \<Rightarrow> (exn + string) list \<Rightarrow> exn + string" where
  \<comment> \<open>the loop over \<open>pdf_reader.pages\<close>\<close>
  "pdf_pages_text text [] = Inr text"
| "pdf_pages_text text (page # pages) =
     (case page of
        Inl e \<Rightarrow> Inl e
      | Inr page_text \<Rightarrow>
          pdf_pages_text (if page_text \<noteq> [] then text @ page_text @ [CHR 0x0A] else text) pages)"

definition extract_pdf_body :: "env \<Rightarrow> string \<Rightarrow> exn + string" where
  \<comment> \<open>the \<open>try\<close> block of \<open>_extract_pdf_text\<close>\<close>
  "extract_pdf_body e file_path =
     and_then (pdf_reader_pages e file_path) (\<lambda>pages.
     and_then (pdf_pages_text [] pages) (\<lambda>text. Inr (py_strip text)))"

definition extract_pdf_text :: "env \<Rightarrow> string \<Rightarrow> exn + string" where
  "extract_pdf_text e file_path =
     (if \<not> pdf_parsing_available e then Inr ''PDF parsing not available. Please install PyPDF2.''
      else try_except (extract_pdf_body e file_path) (\<lambda>ex. Inr []))"

definition docx_row_text :: "string list \<Rightarrow> string list" where
  "docx_row_text row = map py_strip (filter (\<lambda>cell. py_strip cell \<noteq> []) row)"

definition docx_text_parts :: "document \<Rightarrow> string list" where
  "docx_text_parts doc =
     filter (\<lambda>paragraph. py_strip paragraph \<noteq> []) (paragraphs doc) @
     concat (map (\<lambda>table.
        map (\<lambda>row. py_join '' | '' (docx_row_text row))
            (filter (\<lambda>row. docx_row_text row \<noteq> []) table)) (tables doc))"

definition extract_docx_body :: "env \<Rightarrow> string \<Rightarrow> exn + string" where
  \<comment> \<open>the \<open>try\<close> block of \<open>_extract_docx_text\<close>\<close>
  "extract_docx_body e file_path =
     and_then (docx_document e file_path) (\<lambda>doc. Inr (py_join [CHR 0x0A] (docx_text_parts doc)))"

definition extract_docx_text :: "env \<Rightarrow> string \<Rightarrow> exn + string" where
  "extract_docx_text e file_path =
     (if \<not> docx_parsing_available e
      then Inr ''DOCX parsing not available. Please install python-docx.''
      else try_except (extract_docx_body e file_path) (\<lambda>ex. Inr []))"

definition rfind :: "char \<Rightarrow> string \<Rightarrow> int" where
  \<comment> \<open>\<open>s.rfind(c)\<close>: the last index of \<open>c\<close>, or -1\<close>
  "rfind c s = (case filter (\<lambda>i. s ! i = c) (rev [0..<length s]) of
                  [] \<Rightarrow> - 1 | i # _ \<Rightarrow> int i)"

definition splitext :: "string \<Rightarrow> string \<times> string" where
  \<comment> \<open>\<open>os.path.splitext\<close> of \<open>posixpath\<close>: the extension starts at the last dot of the last
      path component, unless only dots precede it there\<close>
  "splitext p =
     (let sepIndex = rfind CHR ''/'' p; dotIndex = rfind CHR ''.'' p
      in if sepIndex < dotIndex \<and>
            list_ex (\<lambda>ch. ch \<noteq> CHR ''.'') (drop (nat (sepIndex + 1)) (take (nat dotIndex) p))
         then (take (nat dotIndex) p, drop (nat dotIndex) p)
         else (p, []))"

definition file_extension :: "string \<Rightarrow> string" where
  "file_extension file_path = py_lower (snd (splitext file_path))"

definition aiofiles_open_read :: "string \<Rightarrow> exn + string" where
  \<comment> \<open>\<open>async with aiofiles.open(...) as f: return await f.read()\<close>: the module never imports
      \<open>aiofiles\<close>, so looking the name up raises NameError\<close>
  "aiofiles_open_read file_path = Inl NameError"

definition extract_text_body :: "env \<Rightarrow> string \<Rightarrow> exn + string" where
  \<comment> \<open>the \<open>try\<close> block of \<open>_extract_text_from_file\<close>\<close>
  "extract_text_body e file_path =
     (if file_extension file_path = ''.pdf'' then extract_pdf_text e file_path
      else if file_extension file_path \<in> set [''.docx'', ''.doc'']
        then extract_docx_text e file_path
      else if file_extension file_path = ''.txt'' then aiofiles_open_read file_path
      else try_except (aiofiles_open_read file_path) (\<lambda>ex. Inr []))"

definition extract_text_from_file :: "env \<Rightarrow> string \<Rightarrow> exn + string" where
  "extract_text_from_file e file_path =
     try_except (extract_text_body e file_path) (\<lambda>ex. Inr [])"

section \<open>The field extractors\<close>

abbreviation (input) nl :: char where "nl \<equiv> CHR 0x0A"
abbreviation (input) rx_d :: rx where "rx_d \<equiv> CSet [ClsD]"
abbreviation (input) rx_s :: rx where "rx_s \<equiv> CSet [ClsS]"
abbreviation (input) rx_AZ :: rx where "rx_AZ \<equiv> CSet [Rng CHR ''A'' CHR ''Z'']"
abbreviation (input) rx_az :: rx where "rx_az \<equiv> CSet [Rng CHR ''a'' CHR ''z'']"

definition skill_taxonomy :: "(string \<times> string list) list" where
  "skill_taxonomy =
     [(''programming_languages'',
        [''Python'', ''Java'', ''JavaScript'', ''C++'', ''C#'', ''Ruby'', ''PHP'', ''Go'', ''Rust'',
         ''TypeScript'', ''Swift'', ''Kotlin'', ''Scala'', ''R'', ''MATLAB'', ''Perl'', ''C'',
         ''Objective-C'', ''Dart'', ''Julia'', ''F#'', ''Haskell'']),
      (''web_technologies'',
        [''HTML'', ''CSS'', ''React'', ''Angular'', ''Vue.js'', ''Node.js'', ''Express.js'',
         ''Django'', ''Flask'', ''Spring Boot'', ''ASP.NET'', ''Laravel'', ''Ruby on Rails'',
         ''Next.js'', ''Nuxt.js'', ''Svelte'', ''Bootstrap'', ''Tailwind CSS'']),
      (''databases'',
        [''MySQL'', ''PostgreSQL'', ''MongoDB'', ''Redis'', ''Cassandra'', ''DynamoDB'',
         ''Oracle'', ''SQL Server'', ''SQLite'', ''Elasticsearch'', ''MariaDB'',
         ''CouchDB'', ''InfluxDB'']),
      (''cloud_platforms'',
        [''AWS'', ''Azure'', ''Google Cloud'', ''GCP'', ''Heroku'', ''DigitalOcean'',
         ''Linode'', ''Vercel'', ''Netlify'', ''Firebase'']),
      (''devops_tools'',
        [''Docker'', ''Kubernetes'', ''Jenkins'', ''GitLab CI'', ''Travis CI'', ''CircleCI'',
         ''Terraform'', ''Ansible'', ''Puppet'', ''Chef'', ''Vagrant'', ''Prometheus'',
         ''Grafana'']),
      (''version_control'',
        [''Git'', ''GitHub'', ''GitLab'', ''Bitbucket'', ''SVN'', ''Mercurial'']),
      (''soft_skills'',
        [''Communication'', ''Leadership'', ''Problem Solving'', ''Teamwork'', ''Agile'',
         ''Scrum'', ''Project Management'', ''Time Management'', ''Critical Thinking'',
         ''Collaboration'', ''Adaptability'']),
      (''frameworks'',
        [''TensorFlow'', ''PyTorch'', ''Keras'', ''Pandas'', ''NumPy'', ''Scikit-learn'',
         ''OpenCV'', ''Matplotlib'', ''Seaborn'', ''Plotly''])]"

definition all_skills :: "string list" where
  \<comment> \<open>the flattened taxonomy built by \<open>__init__\<close>\<close>
  "all_skills = concat (map snd skill_taxonomy)"

record parser =
  nlp :: "(string \<Rightarrow> exn + (string \<times> string) list) option"
    \<comment> \<open>\<open>self.nlp\<close>: None, or the spaCy pipeline, which on a text raises or yields the entities
        \<open>(ent.text, ent.label_)\<close> of \<open>doc.ents\<close>\<close>

subsection \<open>Name\<close>

definition name_tail :: rx where
  \<comment> \<open>\<open>(?:\s+[A-Z][a-z']+)\<close>\<close>
  "name_tail = rx_cat [rx_plus rx_s, rx_AZ,
                       rx_plus (CSet [Rng CHR ''a'' CHR ''z'', Chr (CHR 0x27)])]"

definition name_patterns :: "rx list" where
  "name_patterns =
     [rx_cat [Bol, Star rx_s,
              Grp 1 (rx_cat [rx_AZ, rx_plus rx_az, rx_range 1 2 name_tail]),
              Star rx_s, Eol],
      rx_cat [Lit ''Name:'', Star rx_s,
              Grp 1 (rx_cat [rx_AZ, rx_plus rx_az, rx_range 0 2 name_tail])],
      rx_cat [Bol, Star rx_s,
              Grp 1 (rx_cat [rx_AZ, rx_plus rx_az, rx_plus rx_s, rx_AZ, Opt (Lit ''.''),
                             Star rx_s, rx_AZ, rx_plus rx_az]),
              Star rx_s, Eol]]"

definition skip_words :: "string list" where
  "skip_words = [''resume'', ''cv'', ''curriculum'', ''vitae'', ''professional'', ''summary'',
                 ''objective'']"

definition looks_like_name :: "string list \<Rightarrow> bool" where
  \<comment> \<open>\<open>all(word[0].isupper() and word[1:].islower() for word in words if len(word) > 1)\<close>\<close>
  "looks_like_name words =
     list_all (\<lambda>word. py_isupper (take 1 word) \<and> py_islower (drop 1 word))
              (filter (\<lambda>word. 1 < length word) words)"

fun name_try_patterns :: "rx list \<Rightarrow> string \<Rightarrow> exn + string option" where
  "name_try_patterns [] line = Inr None"
| "name_try_patterns (pattern # rest) line =
     (case re_search False pattern line of
        None \<Rightarrow> name_try_patterns rest line
      | Some mt \<Rightarrow>
          and_then (group_str mt 1) (\<lambda>g.
            let potential_name = py_strip g; words = py_split potential_name
            in if 1 \<le> length words \<and> length words \<le> 3 \<and> looks_like_name words
               then Inr (Some potential_name)
               else name_try_patterns rest line))"

fun name_lines :: "string list \<Rightarrow> exn + string option" where
  "name_lines [] = Inr None"
| "name_lines (line0 # rest) =
     (let line = py_strip line0
      in if length line < 3 \<or> 50 < length line then name_lines rest
         else if list_ex (\<lambda>word. py_in word (py_lower line)) skip_words then name_lines rest
         else and_then (name_try_patterns name_patterns line) (\<lambda>r.
                case r of Some n \<Rightarrow> Inr (Some n) | None \<Rightarrow> name_lines rest))"

definition extract_name :: "string \<Rightarrow> exn + string option" where
  "extract_name text = name_lines (take 10 (split_on nl text))"

subsection \<open>Email\<close>

definition email_pattern :: rx where
  \<comment> \<open>\<open>\b[A-Za-z0-9._%+-]+@[A-Za-z0-9.-]+\.[A-Z|a-z]{2,}\b\<close>\<close>
  "email_pattern =
     rx_cat [Wb,
             rx_plus (CSet [Rng CHR ''A'' CHR ''Z'', Rng CHR ''a'' CHR ''z'', Rng CHR ''0'' CHR ''9'',
                            Chr CHR ''.'', Chr CHR ''_'', Chr CHR ''%'', Chr CHR ''+'', Chr CHR ''-'']),
             Lit ''@'',
             rx_plus (CSet [Rng CHR ''A'' CHR ''Z'', Rng CHR ''a'' CHR ''z'', Rng CHR ''0'' CHR ''9'',
                            Chr CHR ''.'', Chr CHR ''-'']),
             Lit ''.'',
             rx_atleast 2 (CSet [Rng CHR ''A'' CHR ''Z'', Chr CHR ''|'', Rng CHR ''a'' CHR ''z'']),
             Wb]"

definition extract_email :: "string \<Rightarrow> string option" where
  "extract_email text =
     (let matches = findall False email_pattern 0 text;
          valid_emails =
            filter (\<lambda>em. \<not> list_ex (\<lambda>domain. py_in domain (py_lower em))
                                    [''example.com'', ''test.com'', ''placeholder''])
                   matches
      in case valid_emails of [] \<Rightarrow> None | em # _ \<Rightarrow> Some (py_lower em))"

subsection \<open>Phone\<close>

definition phone_label_chars :: rx where
  \<comment> \<open>\<open>([\d\s\-\(\)\+\.]+)\<close>\<close>
  "phone_label_chars =
     Grp 1 (rx_plus (CSet [ClsD, ClsS, Chr CHR ''-'', Chr CHR ''('', Chr CHR '')'',
                           Chr CHR ''+'', Chr CHR ''.'']))"

definition phone_patterns :: "(rx \<times> nat) list" where
  \<comment> \<open>each pattern with the number of its groups\<close>
  "phone_patterns =
     [(rx_cat [Opt (Lit ''+''), rx_range 1 3 rx_d, Opt (CSet [Chr CHR ''-'', ClsS]),
               Opt (Lit ''(''), rx_rep 3 rx_d, Opt (Lit '')''), Opt (CSet [Chr CHR ''-'', ClsS]),
               rx_rep 3 rx_d, Opt (CSet [Chr CHR ''-'', ClsS]), rx_rep 4 rx_d], 0),
      (rx_cat [Opt (Lit ''(''), rx_rep 3 rx_d, Opt (Lit '')''),
               Opt (CSet [Chr CHR ''-'', Chr CHR ''.'', ClsS]), rx_rep 3 rx_d,
               Opt (CSet [Chr CHR ''-'', Chr CHR ''.'', ClsS]), rx_rep 4 rx_d], 0),
      (rx_cat [Lit ''Phone'', Opt (Lit '':''), Star rx_s, phone_label_chars], 1),
      (rx_cat [Lit ''Mobile'', Opt (Lit '':''), Star rx_s, phone_label_chars], 1),
      (rx_cat [Lit ''Tel'', Opt (Lit '':''), Star rx_s, phone_label_chars], 1)]"

fun phone_first_valid :: "string list \<Rightarrow> string option" where
  "phone_first_valid [] = None"
| "phone_first_valid (match # rest) =
     (let phone = filter (\<lambda>c. py_isdecimal c \<or> c = CHR ''+'') match
      in if 10 \<le> length phone \<and> length phone \<le> 15 then Some (py_strip match)
         else phone_first_valid rest)"

fun phone_try_patterns :: "(rx \<times> nat) list \<Rightarrow> string \<Rightarrow> string option" where
  "phone_try_patterns [] text = None"
| "phone_try_patterns ((pattern, ng) # rest) text =
     (case phone_first_valid (findall True pattern ng text) of
        Some ph \<Rightarrow> Some ph
      | None \<Rightarrow> phone_try_patterns rest text)"

definition extract_phone :: "string \<Rightarrow> string option" where
  "extract_phone text = phone_try_patterns phone_patterns text"

subsection \<open>Skills\<close>

definition skill_pattern :: "string \<Rightarrow> rx" where
  \<comment> \<open>\<open>r'\b' + re.escape(skill_lower) + r'\b'\<close>\<close>
  "skill_pattern skill_lower = rx_cat [Wb, Lit skill_lower, Wb]"

definition skills_section_pattern :: rx where
  "skills_section_pattern =
     rx_cat [rx_alts [rx_cat [Lit ''technical'', rx_plus rx_s, Lit ''skill'', Opt (Lit ''s'')],
                      rx_cat [Lit ''skill'', Opt (Lit ''s'')],
                      rx_cat [Lit ''technologie'', Opt (Lit ''s'')],
                      rx_cat [Lit ''competencie'', Opt (Lit ''s'')]],
             Star rx_s, Opt (Lit '':''), Star rx_s,
             Grp 1 (LazyStar (CSet [ClsS, ClsNotS])),
             Look (rx_alts [rx_cat [Lit [nl], Star rx_s, Lit [nl]],
                            rx_cat [Lit [nl], rx_AZ],
                            Eol])]"

definition skill_delimiter :: "char \<Rightarrow> bool" where
  \<comment> \<open>the class \<open>[,;|\<bullet>\n\-]\<close>; the bullet is no character of the model\<close>
  "skill_delimiter c = (c \<in> set [CHR '','', CHR '';'', CHR ''|'', nl, CHR ''-''])"

definition add_skills :: "(string \<Rightarrow> bool) \<Rightarrow> string list \<Rightarrow> string list" where
  \<comment> \<open>\<open>for skill in self.all_skills: if cond(skill): found_skills.add(skill)\<close>; the set is a
      list without repetitions\<close>
  "add_skills cond found_skills =
     fold (\<lambda>skill found. if cond skill then List.insert skill found else found)
          all_skills found_skills"

definition skills_direct :: "string \<Rightarrow> string list \<Rightarrow> string list" where
  "skills_direct text found_skills =
     add_skills (\<lambda>skill. re_search False (skill_pattern (py_lower skill)) (py_lower text) \<noteq> None)
                found_skills"

definition skills_from_section :: "string \<Rightarrow> string list \<Rightarrow> exn + string list" where
  "skills_from_section text found_skills =
     (case re_search True skills_section_pattern text of
        None \<Rightarrow> Inr found_skills
      | Some mt \<Rightarrow>
          and_then (case match_group mt 1 of None \<Rightarrow> Inl TypeError | Some g \<Rightarrow> Inr g)
            (\<lambda>skills_text.
               Inr (fold (\<lambda>candidate0 found.
                            let candidate = py_strip candidate0
                            in if candidate \<noteq> [] \<and> length candidate \<le> 30
                               then add_skills
                                      (\<lambda>skill. py_in (py_lower skill) (py_lower candidate)) found
                               else found)
                         (split_runs skill_delimiter False skills_text) found_skills)))"

definition skills_from_nlp :: "parser \<Rightarrow> env \<Rightarrow> string \<Rightarrow> string list \<Rightarrow> string list" where
  \<comment> \<open>the block under \<open>if self.nlp and SPACY_AVAILABLE\<close>, with its own \<open>try\<close>\<close>
  "skills_from_nlp self e text found_skills =
     (case nlp self of
        None \<Rightarrow> found_skills
      | Some run_nlp \<Rightarrow>
          if \<not> spacy_available e then found_skills
          else (case run_nlp text of
                  Inl ex \<Rightarrow> found_skills
                | Inr ents \<Rightarrow>
                    fold (\<lambda>(ent_text, ent_label) found.
                            if ent_label \<in> set [''ORG'', ''PRODUCT''] \<and> length ent_text < 30
                            then add_skills (\<lambda>skill. py_lower skill = py_lower ent_text) found
                            else found)
                         ents found_skills))"

definition extract_skills :: "parser \<Rightarrow> env \<Rightarrow> string \<Rightarrow> exn + string list" where
  "extract_skills self e text =
     and_then (skills_from_section text (skills_direct text [])) (\<lambda>found_skills.
       Inr (sort (skills_from_nlp self e text found_skills)))"

subsection \<open>Experience\<close>

definition exp_patterns :: "rx list" where
  "exp_patterns =
     [rx_cat [Grp 1 (rx_plus rx_d), Opt (Lit ''+''), Star rx_s, Lit ''year'', Opt (Lit ''s''),
              rx_plus rx_s, Opt (rx_cat [Lit ''of'', rx_plus rx_s]), Lit ''experience''],
      rx_cat [Lit ''experience'', Opt (Lit '':''), Star rx_s, Grp 1 (rx_plus rx_d),
              Opt (Lit ''+''), Star rx_s, Lit ''year'', Opt (Lit ''s'')],
      rx_cat [Grp 1 (rx_plus rx_d), Opt (Lit ''+''), Star rx_s, Lit ''yr'', Opt (Lit ''s''),
              rx_plus rx_s, Opt (rx_cat [Lit ''of'', rx_plus rx_s]), Lit ''experience''],
      rx_cat [Lit ''over'', rx_plus rx_s, Grp 1 (rx_plus rx_d), rx_plus rx_s,
              Lit ''year'', Opt (Lit ''s'')],
      rx_cat [Lit ''more'', rx_plus rx_s, Lit ''than'', rx_plus rx_s, Grp 1 (rx_plus rx_d),
              rx_plus rx_s, Lit ''year'', Opt (Lit ''s'')]]"

definition year_pattern :: rx where
  \<comment> \<open>\<open>\b(19\d{2}|20[0-3]\d)\b\<close>\<close>
  "year_pattern =
     rx_cat [Wb,
             Grp 1 (Alt (rx_cat [Lit ''19'', rx_rep 2 rx_d])
                        (rx_cat [Lit ''20'', CSet [Rng CHR ''0'' CHR ''3''], rx_d])),
             Wb]"

fun first_match :: "bool \<Rightarrow> rx list \<Rightarrow> string \<Rightarrow> rmatch option" where
  \<comment> \<open>\<open>for pattern in patterns: match = re.search(pattern, text, flags); if match: ...\<close> where
      the body leaves the loop\<close>
  "first_match ic [] text = None"
| "first_match ic (pattern # rest) text =
     (case re_search ic pattern text of
        Some mt \<Rightarrow> Some mt
      | None \<Rightarrow> first_match ic rest text)"

fun map_exn :: "('a \<Rightarrow> exn + 'b) \<Rightarrow> 'a list \<Rightarrow> exn + 'b list" where
  \<comment> \<open>a list comprehension whose element expression may raise\<close>
  "map_exn f [] = Inr []"
| "map_exn f (x # xs) = and_then (f x) (\<lambda>y. and_then (map_exn f xs) (\<lambda>ys. Inr (y # ys)))"

definition dates_body :: "env \<Rightarrow> string \<Rightarrow> exn + string option" where
  \<comment> \<open>the \<open>try\<close> block of \<open>_calculate_experience_from_dates\<close>\<close>
  "dates_body e text =
     (let years = findall False year_pattern 1 text
      in if 2 \<le> length years
         then and_then (map_exn (py_int (int_max_str_digits e)) years) (\<lambda>year_ints.
                let start_year = fold min (tl year_ints) (hd year_ints);
                    end_year = min (fold max (tl year_ints) (hd year_ints)) (now_year e);
                    experience_years = int end_year - int start_year
                in if 0 < experience_years \<and> experience_years \<le> 50
                   then Inr (Some (show_nat (nat experience_years) @ ''+ years''))
                   else Inr None)
         else Inr None)"

definition calculate_experience_from_dates :: "env \<Rightarrow> string \<Rightarrow> exn + string option" where
  "calculate_experience_from_dates e text = try_except (dates_body e text) (\<lambda>ex. Inr None)"

definition extract_experience :: "env \<Rightarrow> string \<Rightarrow> exn + string option" where
  "extract_experience e text =
     (case first_match True exp_patterns text of
        Some mt \<Rightarrow>
          and_then (case match_group mt 1 of
                      None \<Rightarrow> Inl TypeError
                    | Some g \<Rightarrow> py_int (int_max_str_digits e) g) (\<lambda>years.
            Inr (Some (show_nat years @ ''+ years'')))
      | None \<Rightarrow>
          and_then (calculate_experience_from_dates e text) (\<lambda>work_years.
            if truthy work_years then Inr work_years else Inr None))"

subsection \<open>Education\<close>

abbreviation (input) rx_words :: rx where
  \<comment> \<open>\<open>[\w\s]+\<close>\<close>
  "rx_words \<equiv> rx_plus (CSet [ClsW, ClsS])"

definition rx_of_clause :: rx where
  \<comment> \<open>\<open>(?:\s+of\s+[\w\s]+)?\<close>\<close>
  "rx_of_clause = Opt (rx_cat [rx_plus rx_s, Lit ''of'', rx_plus rx_s, rx_words])"

definition rx_words_clause :: rx where
  \<comment> \<open>\<open>(?:\s+[\w\s]+)?\<close>\<close>
  "rx_words_clause = Opt (rx_cat [rx_plus rx_s, rx_words])"

definition education_patterns :: "rx list" where
  "education_patterns =
     [Grp 1 (Alt (rx_cat [Lit ''Bachelor'', Opt (CSet [ClsS, Chr (CHR 0x27)]), Opt (Lit ''s''),
                          rx_of_clause])
                 (rx_cat [Lit ''B'', Opt (Lit ''.''), CSet [Chr CHR ''A'', Chr CHR ''S''],
                          Opt (Lit ''.''), rx_words_clause])),
      Grp 1 (Alt (rx_cat [Lit ''Master'', Opt (CSet [ClsS, Chr (CHR 0x27)]), Opt (Lit ''s''),
                          rx_of_clause])
                 (rx_cat [Lit ''M'', Opt (Lit ''.''), CSet [Chr CHR ''A'', Chr CHR ''S''],
                          Opt (Lit ''.''), rx_words_clause])),
      Grp 1 (rx_alts [Lit ''PhD'',
                      rx_cat [Lit ''Ph'', Opt (Lit ''.''), Lit ''D'', Opt (Lit ''.'')],
                      rx_cat [Lit ''Doctor'', Opt (Lit ''ate''), rx_of_clause]]),
      Grp 1 (rx_cat [Lit ''Associate'', Opt (CSet [ClsS, Chr (CHR 0x27)]), Opt (Lit ''s''),
                     rx_words_clause]),
      Grp 1 (rx_cat [Lit ''Certificate'', rx_words_clause]),
      Grp 1 (rx_cat [Lit ''Diploma'', rx_words_clause])]"

definition university_pattern :: rx where
  \<comment> \<open>\<open>(\b(?:University|College|Institute|School)(?:\s+of\s+[\w\s]+)?)\b\<close>\<close>
  "university_pattern =
     rx_cat [Grp 1 (rx_cat [Wb,
                            rx_alts [Lit ''University'', Lit ''College'', Lit ''Institute'',
                                     Lit ''School''],
                            rx_of_clause]),
             Wb]"

definition extract_education :: "string \<Rightarrow> string option" where
  "extract_education text =
     (let education_info = concat (map (\<lambda>pattern. findall True pattern 1 text) education_patterns);
          universities = findall True university_pattern 1 text;
          education_info = education_info @ take 2 universities
      in if education_info \<noteq> [] then Some (py_join ''; '' (take 3 education_info)) else None)"

subsection \<open>Work history\<close>

definition work_section_pattern :: rx where
  "work_section_pattern =
     rx_cat [rx_alts [rx_cat [Lit ''professional'', rx_plus rx_s, Lit ''experience''],
                      rx_cat [Lit ''work'', rx_plus rx_s, Lit ''experience''],
                      Lit ''experience'', Lit ''employment''],
             Star rx_s, Opt (Lit '':''), Star rx_s,
             Grp 1 (LazyStar (CSet [ClsS, ClsNotS])),
             Look (Alt (rx_cat [Lit [nl], Star rx_s,
                                rx_alts [Lit ''education'', Lit ''skills'', Lit ''projects'',
                                         Lit ''certifications'']])
                       Eol)]"

definition job_dates :: rx where
  \<comment> \<open>\<open>(\d{4}\s*-\s*\d{4}|\d{4}\s*-\s*Present)?\<close>, group 3 of each job pattern\<close>
  "job_dates =
     Opt (Grp 3 (Alt (rx_cat [rx_rep 4 rx_d, Star rx_s, Lit ''-'', Star rx_s, rx_rep 4 rx_d])
                     (rx_cat [rx_rep 4 rx_d, Star rx_s, Lit ''-'', Star rx_s, Lit ''Present''])))"

definition job_patterns :: "rx list" where
  "job_patterns =
     [rx_cat [Bol, Grp 1 (rx_plus (NSet [Chr CHR ''|''])), Lit ''|'', Star rx_s,
              Grp 2 (rx_plus (NSet [Chr CHR ''|''])), Opt (Lit ''|''), Star rx_s, job_dates],
      rx_cat [Bol, Grp 1 (rx_plus (NSet [Chr CHR '',''])), Lit '','', Star rx_s,
              Grp 2 (rx_plus (NSet [Chr CHR '',''])), Star rx_s, job_dates],
      rx_cat [Bol, Grp 1 (rx_plus (rx_cat [rx_AZ, Star rx_az, Star rx_s])), Star rx_s,
              Alt (Lit ''at'') (Lit ''@''), Star rx_s, Grp 2 (Star (NSet [ClsD])), job_dates]]"

definition close_job :: "job \<Rightarrow> string list \<Rightarrow> job" where
  \<comment> \<open>\<open>if description_lines: current_job['description'] = description_lines[:3]\<close>\<close>
  "close_job current_job description_lines =
     (if description_lines \<noteq> [] then current_job\<lparr>description := Some (take 3 description_lines)\<rparr>
      else current_job)"

fun work_lines ::
  "string list \<Rightarrow> job list \<Rightarrow> job option \<Rightarrow> string list \<Rightarrow> exn + job list \<times> job option \<times> string list"
where
  \<comment> \<open>the loop over the lines of the section; \<open>current_job\<close> is None for the empty dict.
      Of the three markers of a description line the bullet is no character of the model,
      so \<open>line.startswith('\<bullet>')\<close> is false on every line\<close>
  "work_lines [] jobs current_job description_lines =
     Inr (jobs, current_job, description_lines)"
| "work_lines (line0 # rest) jobs current_job description_lines =
     (let line = py_strip line0
      in if line = [] then work_lines rest jobs current_job description_lines
         else (case first_match False job_patterns line of
                 Some mt \<Rightarrow>
                   (let jobs' = (case current_job of
                            None \<Rightarrow> jobs
                          | Some j \<Rightarrow> jobs @ [close_job j description_lines]);
                        description_lines' = (case current_job of
                            None \<Rightarrow> description_lines | Some j \<Rightarrow> [])
                    in and_then (group_str mt 1) (\<lambda>g1.
                       and_then (group_str mt 2) (\<lambda>g2.
                         work_lines rest jobs'
                           (Some \<lparr>title = py_strip g1, company = py_strip g2,
                                  dates = (case match_group mt 3 of
                                             None \<Rightarrow> []
                                           | Some g3 \<Rightarrow> if g3 \<noteq> [] then py_strip g3 else []),
                                  description = None\<rparr>)
                           description_lines')))
               | None \<Rightarrow>
                   if current_job \<noteq> None \<and> length description_lines < 5
                   then (if startswith line ''-'' \<or> startswith line ''*''
                         then work_lines rest jobs current_job
                                (description_lines @ [py_strip (drop 1 line)])
                         else if 20 < length line
                         then work_lines rest jobs current_job (description_lines @ [line])
                         else work_lines rest jobs current_job description_lines)
                   else work_lines rest jobs current_job description_lines))"

definition extract_work_history :: "string \<Rightarrow> exn + job list" where
  "extract_work_history text =
     (case re_search True work_section_pattern text of
        None \<Rightarrow> Inr []
      | Some mt \<Rightarrow>
          and_then (group_str mt 1) (\<lambda>experience_text.
          and_then (work_lines (split_on nl experience_text) [] None [])
            (\<lambda>(jobs, current_job, description_lines).
               Inr (take 5 (case current_job of
                              None \<Rightarrow> jobs
                            | Some j \<Rightarrow> jobs @ [close_job j description_lines])))))"

subsection \<open>Location\<close>

definition location_patterns :: "rx list" where
  "location_patterns =
     [rx_cat [Lit ''Location'', Opt (Lit '':''), Star rx_s,
              Grp 1 (rx_cat [rx_plus (CSet [Rng CHR ''A'' CHR ''Z'', Rng CHR ''a'' CHR ''z'', ClsS,
                                            Chr CHR '','']),
                             Opt (rx_cat [Lit '','', Star rx_s, rx_rep 2 rx_AZ])])],
      rx_cat [Lit ''Address'', Opt (Lit '':''), Star rx_s,
              Grp 1 (rx_cat [rx_plus (CSet [Rng CHR ''A'' CHR ''Z'', Rng CHR ''a'' CHR ''z'', ClsS,
                                            Chr CHR '','']),
                             Opt (rx_cat [Lit '','', Star rx_s, rx_rep 2 rx_AZ])])],
      rx_cat [Grp 1 (rx_cat [rx_plus (CSet [Rng CHR ''A'' CHR ''Z'', Rng CHR ''a'' CHR ''z'', ClsS]),
                             Lit '','', Star rx_s, rx_rep 2 rx_AZ]),
              Alt rx_s Eol],
      rx_cat [Grp 1 (rx_cat [rx_plus (CSet [Rng CHR ''A'' CHR ''Z'', Rng CHR ''a'' CHR ''z'', ClsS]),
                             Lit '','', Star rx_s,
                             rx_alts [Lit ''California'', Lit ''New York'', Lit ''Texas'',
                                      Lit ''Florida'', Lit ''India'', Lit ''Canada'', Lit ''UK'',
                                      Lit ''USA'']]),
              Wb]]"

fun location_try_patterns :: "rx list \<Rightarrow> string \<Rightarrow> exn + string option" where
  "location_try_patterns [] text = Inr None"
| "location_try_patterns (pattern # rest) text =
     (case re_search True pattern text of
        None \<Rightarrow> location_try_patterns rest text
      | Some mt \<Rightarrow>
          and_then (group_str mt 1) (\<lambda>g.
            let loc = collapse_ws False (py_strip g)
            in if 3 < length loc \<and> length loc < 100 then Inr (Some loc)
               else location_try_patterns rest text))"

definition extract_location :: "string \<Rightarrow> exn + string option" where
  "extract_location text = location_try_patterns location_patterns text"

subsection \<open>Salary expectation\<close>

definition salary_amount :: rx where
  \<comment> \<open>\<open>([\d,]+(?:\.\d+)?(?:k|K)?)\<close>\<close>
  "salary_amount =
     Grp 1 (rx_cat [rx_plus (CSet [ClsD, Chr CHR '','']), Opt (rx_cat [Lit ''.'', rx_plus rx_d]),
                    Opt (Alt (Lit ''k'') (Lit ''K''))])"

definition salary_patterns :: "rx list" where
  "salary_patterns =
     [rx_cat [Lit ''Salary'', Opt (Lit '':''), Star rx_s, Opt (Lit ''$''), salary_amount],
      rx_cat [Lit ''Expected'', rx_plus rx_s, Lit ''Salary'', Opt (Lit '':''), Star rx_s,
              Opt (Lit ''$''), salary_amount],
      rx_cat [Lit ''Compensation'', Opt (Lit '':''), Star rx_s, Opt (Lit ''$''), salary_amount],
      rx_cat [Lit ''$'', salary_amount, Star rx_s,
              Opt (rx_alts [rx_cat [Lit ''per'', rx_plus rx_s, Lit ''year''], Lit ''annually'',
                            Lit ''yearly''])]]"

definition extract_salary_expectation :: "string \<Rightarrow> string option" where
  "extract_salary_expectation text =
     (case first_match True salary_patterns text of
        Some mt \<Rightarrow> match_group mt 1
      | None \<Rightarrow> None)"

section \<open>The pipeline\<close>

text \<open>
  \<open>parse_resume\<close> calls nine methods of \<open>self\<close> on the text. The pipeline is first written
  over any nine methods that return or raise, then instantiated with the methods of the
  class.
\<close>

record methods =
  m_extract_name :: "string \<Rightarrow> exn + string option"
  m_extract_email :: "string \<Rightarrow> exn + string option"
  m_extract_phone :: "string \<Rightarrow> exn + string option"
  m_extract_skills :: "string \<Rightarrow> exn + string list"
  m_extract_experience :: "string \<Rightarrow> exn + string option"
  m_extract_education :: "string \<Rightarrow> exn + string option"
  m_extract_work_history :: "string \<Rightarrow> exn + job list"
  m_extract_location :: "string \<Rightarrow> exn + string option"
  m_extract_salary_expectation :: "string \<Rightarrow> exn + string option"

definition extract_fields :: "methods \<Rightarrow> string \<Rightarrow> exn + parsed_data" where
  \<comment> \<open>the dict display \<open>parsed_data = {...}\<close>, evaluated in the order of its entries\<close>
  "extract_fields M text =
     and_then (m_extract_name M text) (\<lambda>v1.
     and_then (m_extract_email M text) (\<lambda>v2.
     and_then (m_extract_phone M text) (\<lambda>v3.
     and_then (m_extract_skills M text) (\<lambda>v4.
     and_then (m_extract_experience M text) (\<lambda>v5.
     and_then (m_extract_education M text) (\<lambda>v6.
     and_then (m_extract_work_history M text) (\<lambda>v7.
     and_then (m_extract_location M text) (\<lambda>v8.
     and_then (m_extract_salary_expectation M text) (\<lambda>v9.
       Inr \<lparr>name = v1, email = v2, phone = v3, skills = v4, experience = v5,
            education = v6, work_history = v7, location = v8, salary_expectation = v9,
            raw_text = take 2000 text, confidence_scores = []\<rparr>)))))))))"

definition parse_resume_body :: "methods \<Rightarrow> env \<Rightarrow> string \<Rightarrow> exn + parsed_data" where
  \<comment> \<open>the \<open>try\<close> block of \<open>parse_resume\<close>\<close>
  "parse_resume_body M e file_path =
     and_then (extract_text_from_file e file_path) (\<lambda>text.
       if py_strip text = [] then Inr create_empty_result
       else and_then (extract_fields M text) (\<lambda>parsed.
         Inr (parsed\<lparr>confidence_scores := calculate_confidence_scores parsed text\<rparr>)))"

definition parse_resume_with :: "methods \<Rightarrow> env \<Rightarrow> string \<Rightarrow> exn + parsed_data" where
  "parse_resume_with M e file_path =
     try_except (parse_resume_body M e file_path) (\<lambda>ex. Inr create_empty_result)"

definition self_methods :: "parser \<Rightarrow> env \<Rightarrow> methods" where
  \<comment> \<open>the methods of \<open>EnhancedResumeParser\<close>\<close>
  "self_methods self e =
     \<lparr>m_extract_name = extract_name,
      m_extract_email = (\<lambda>text. Inr (extract_email text)),
      m_extract_phone = (\<lambda>text. Inr (extract_phone text)),
      m_extract_skills = extract_skills self e,
      m_extract_experience = extract_experience e,
      m_extract_education = (\<lambda>text. Inr (extract_education text)),
      m_extract_work_history = extract_work_history,
      m_extract_location = extract_location,
      m_extract_salary_expectation = (\<lambda>text. Inr (extract_salary_expectation text))\<rparr>"

definition parse_resume :: "parser \<Rightarrow> env \<Rightarrow> string \<Rightarrow> exn + parsed_data" where
  "parse_resume self e file_path = parse_resume_with (self_methods self e) e file_path"

section \<open>Sample inputs\<close>

definition sample_text :: string where
  "sample_text = ''John Smith'' @ [nl] @ ''john.smith@mail.org'' @ [nl] @ ''(555) 123-4567'' @ [nl] @
                 ''Skills: Python, React, AWS'' @ [nl] @ ''5 years experience''"

definition env_ok :: env where
  \<comment> \<open>both libraries installed, every file holds \<open>sample_text\<close>\<close>
  "env_ok = \<lparr>pdf_parsing_available = True, docx_parsing_available = True, spacy_available = True,
     pdf_reader_pages = (\<lambda>p. Inr [Inr sample_text]),
     docx_document = (\<lambda>p. Inr \<lparr>paragraphs = [sample_text], tables = []\<rparr>),
     now_year = 2026, int_max_str_digits = 4300\<rparr>"

definition env_broken :: env where
  \<comment> \<open>a PDF whose second page cannot be read, a DOCX that cannot be opened\<close>
  "env_broken = env_ok\<lparr>
     pdf_reader_pages := (\<lambda>p. Inr [Inr sample_text, Inl (OtherException ''bad page'')]),
     docx_document := (\<lambda>p. Inl (OtherException ''not a zip file''))\<rparr>"

definition env_missing :: env where
  \<comment> \<open>neither PyPDF2 (or pypdf) nor python-docx installed\<close>
  "env_missing = env_ok\<lparr>pdf_parsing_available := False, docx_parsing_available := False\<rparr>"

definition raising_methods :: methods where
  \<comment> \<open>nine methods that raise whenever they are called\<close>
  "raising_methods =
     \<lparr>m_extract_name = (\<lambda>text. Inl (OtherException ''name'')),
      m_extract_email = (\<lambda>text. Inl (OtherException ''email'')),
      m_extract_phone = (\<lambda>text. Inl (OtherException ''phone'')),
      m_extract_skills = (\<lambda>text. Inl (OtherException ''skills'')),
      m_extract_experience = (\<lambda>text. Inl (OtherException ''experience'')),
      m_extract_education = (\<lambda>text. Inl (OtherException ''education'')),
      m_extract_work_history = (\<lambda>text. Inl (OtherException ''work_history'')),
      m_extract_location = (\<lambda>text. Inl (OtherException ''location'')),
      m_extract_salary_expectation = (\<lambda>text. Inl (OtherException ''salary_expectation''))\<rparr>"

definition env_blank :: env where
  \<comment> \<open>a PDF whose pages hold nothing but whitespace\<close>
  "env_blank = env_ok\<lparr>pdf_reader_pages := (\<lambda>p. Inr [Inr ('' '' @ [nl] @ ''  ''), Inr []])\<rparr>"

definition parser0 :: parser where
  \<comment> \<open>a parser whose spaCy model could not be loaded\<close>
  "parser0 = \<lparr>nlp = None\<rparr>"

definition long_digits :: string where
  \<comment> \<open>one digit more than the default limit of \<open>int(str)\<close>\<close>
  "long_digits = replicate 4301 CHR ''7''"

definition overflow_text :: string where
  "overflow_text = ''John Smith'' @ [nl] @ long_digits @ '' years experience''"

definition env_overflow :: env where
  \<comment> \<open>a DOCX whose only paragraph is \<open>overflow_text\<close>\<close>
  "env_overflow =
     env_ok\<lparr>docx_document := (\<lambda>p. Inr \<lparr>paragraphs = [overflow_text], tables = []\<rparr>)\<rparr>"

definition jobs_text :: string where
  \<comment> \<open>a section with seven job headers, the first followed by four marked lines\<close>
  "jobs_text = ''Experience'' @ [nl] @ ''A|B'' @ [nl] @ ''-p'' @ [nl] @ ''-q'' @ [nl] @ ''-r'' @ [nl] @
               ''-s'' @ [nl] @ ''C|D'' @ [nl] @ ''E|F'' @ [nl] @ ''G|H'' @ [nl] @ ''I|J'' @ [nl] @
               ''K|L'' @ [nl] @ ''M|N''"

definition jobs_expected :: "job list" where
  "jobs_expected =
     [\<lparr>title = ''A'', company = ''B'', dates = [], description = Some [''p'', ''q'', ''r'']\<rparr>,
      \<lparr>title = ''C'', company = ''D'', dates = [], description = None\<rparr>,
      \<lparr>title = ''E'', company = ''F'', dates = [], description = None\<rparr>,
      \<lparr>title = ''G'', company = ''H'', dates = [], description = None\<rparr>,
      \<lparr>title = ''I'', company = ''J'', dates = [], description = None\<rparr>]"

definition env_jobs :: env where
  \<comment> \<open>a DOCX whose only paragraph is \<open>jobs_text\<close>\<close>
  "env_jobs = env_ok\<lparr>docx_document := (\<lambda>p. Inr \<lparr>paragraphs = [jobs_text], tables = []\<rparr>)\<rparr>"

definition parser_bad_nlp :: parser where
  \<comment> \<open>a parser whose spaCy model raises on every text\<close>
  "parser_bad_nlp = \<lparr>nlp = Some (\<lambda>text. Inl (OtherException ''model error''))\<rparr>"

definition score_text :: string where
  "score_text = ''Al Bo'' @ [nl] @ ''9 years experience''"

definition env_score :: env where
  \<comment> \<open>a DOCX whose only paragraph is \<open>score_text\<close>\<close>
  "env_score = env_ok\<lparr>docx_document := (\<lambda>p. Inr \<lparr>paragraphs = [score_text], tables = []\<rparr>)\<rparr>"

section \<open>Auxiliary notions for the proofs\<close>

text \<open>A lower bound on what a pattern consumes, the groups every match of a pattern sets, and
  the bound on the description of a job.\<close>

fun min_len :: "rx \<Rightarrow> nat" where
  "min_len (Lit s) = length s"
| "min_len (CSet cl) = 1"
| "min_len (NSet cl) = 1"
| "min_len (Seq r1 r2) = min_len r1 + min_len r2"
| "min_len (Alt r1 r2) = min (min_len r1) (min_len r2)"
| "min_len (Grp n r) = min_len r"
| "min_len r = 0"

fun sets_grp :: "nat \<Rightarrow> rx \<Rightarrow> bool" where
  "sets_grp n (Grp k r) = (k = n \<or> sets_grp n r)"
| "sets_grp n (Seq r1 r2) = (sets_grp n r1 \<or> sets_grp n r2)"
| "sets_grp n (Alt r1 r2) = (sets_grp n r1 \<and> sets_grp n r2)"
| "sets_grp n r = False"

definition job_ok :: "job \<Rightarrow> bool" where
  "job_ok j = (\<forall>d. description j = Some d \<longrightarrow> length d \<le> 3)"

definition exp_tail :: rx where
  \<comment> \<open>the first experience pattern after its group\<close>
  "exp_tail = rx_cat [Opt (Lit ''+''), Star rx_s, Lit ''year'', Opt (Lit ''s''),
              rx_plus rx_s, Opt (rx_cat [Lit ''of'', rx_plus rx_s]), Lit ''experience'']"

fun caps_nonempty :: "rx \<Rightarrow> bool" where
  \<comment> \<open>every group of the pattern consumes at least one character\<close>
  "caps_nonempty (Grp n r) = (0 < min_len r \<and> caps_nonempty r)"
| "caps_nonempty (Seq r1 r2) = (caps_nonempty r1 \<and> caps_nonempty r2)"
| "caps_nonempty (Alt r1 r2) = (caps_nonempty r1 \<and> caps_nonempty r2)"
| "caps_nonempty (Star r) = caps_nonempty r"
| "caps_nonempty (LazyStar r) = caps_nonempty r"
| "caps_nonempty (Opt r) = caps_nonempty r"
| "caps_nonempty r = True"

section \<open>The document loader never raises\<close>

lemma try_except_total: "\<exists>v. try_except b (\<lambda>ex. Inr d) = Inr v"
  by (cases b) (simp_all add: try_except_def)

lemma extract_text_total: "\<exists>t. extract_text_from_file e p = Inr t"
  by (simp add: extract_text_from_file_def try_except_total)

lemma extract_text_other:
  "file_extension p \<notin> set [''.pdf'', ''.docx'', ''.doc''] \<Longrightarrow> extract_text_from_file e p = Inr []"
  by (auto simp: extract_text_from_file_def extract_text_body_def try_except_def
      aiofiles_open_read_def)

lemma ext_pdf: "file_extension ''resume.pdf'' = ''.pdf''"
  by code_simp

lemma ext_docx: "file_extension ''resume.docx'' = ''.docx''"
  by code_simp

lemma ext_txt: "file_extension ''resume.txt'' = ''.txt''"
  by code_simp

lemma env_flags:
  "pdf_parsing_available env_ok" "docx_parsing_available env_ok"
  "pdf_parsing_available env_broken" "docx_parsing_available env_broken"
  "\<not> pdf_parsing_available env_missing" "\<not> docx_parsing_available env_missing"
  by (simp_all add: env_broken_def env_ok_def env_missing_def)

lemma pdf_broken: "extract_pdf_body env_broken ''resume.pdf'' = Inl (OtherException ''bad page'')"
  by code_simp

lemma docx_broken:
  "extract_docx_body env_broken ''resume.docx'' = Inl (OtherException ''not a zip file'')"
  by code_simp

text \<open>
  Claim C4, as the code has it. \<open>_extract_text_from_file\<close> returns a string for every path and
  every behaviour of the libraries: it never raises. When the \<open>try\<close> block of the PDF or of
  the DOCX reader raises (a file that cannot be opened, a page or a document that cannot be
  read) the result is the empty string. When the PDF or the DOCX library is not installed,
  the guard at the top of the reader returns a fixed notice instead, which is not the empty
  string.
\<close>

theorem loader_total:
  "(\<exists>text. extract_text_from_file e p = Inr text) \<and>
   (file_extension p = ''.pdf'' \<and> pdf_parsing_available e \<and> extract_pdf_body e p = Inl ex
      \<longrightarrow> extract_text_from_file e p = Inr []) \<and>
   (file_extension p \<in> set [''.docx'', ''.doc''] \<and> docx_parsing_available e \<and>
    extract_docx_body e p = Inl ex
      \<longrightarrow> extract_text_from_file e p = Inr []) \<and>
   (file_extension p = ''.pdf'' \<and> \<not> pdf_parsing_available e
      \<longrightarrow> extract_text_from_file e p = Inr ''PDF parsing not available. Please install PyPDF2.'') \<and>
   (file_extension p \<in> set [''.docx'', ''.doc''] \<and> \<not> docx_parsing_available e
      \<longrightarrow> extract_text_from_file e p =
           Inr ''DOCX parsing not available. Please install python-docx.'')"
proof (intro conjI impI)
  show "\<exists>text. extract_text_from_file e p = Inr text"
    by (rule extract_text_total)
next
  assume "file_extension p = ''.pdf'' \<and> pdf_parsing_available e \<and> extract_pdf_body e p = Inl ex"
  then show "extract_text_from_file e p = Inr []"
    by (simp add: extract_text_from_file_def extract_text_body_def extract_pdf_text_def
        try_except_def)
next
  assume "file_extension p \<in> set [''.docx'', ''.doc''] \<and> docx_parsing_available e \<and>
    extract_docx_body e p = Inl ex"
  then show "extract_text_from_file e p = Inr []"
    by (auto simp: extract_text_from_file_def extract_text_body_def extract_docx_text_def
        try_except_def)
next
  assume "file_extension p = ''.pdf'' \<and> \<not> pdf_parsing_available e"
  then show "extract_text_from_file e p = Inr ''PDF parsing not available. Please install PyPDF2.''"
    by (simp add: extract_text_from_file_def extract_text_body_def extract_pdf_text_def
        try_except_def)
next
  assume "file_extension p \<in> set [''.docx'', ''.doc''] \<and> \<not> docx_parsing_available e"
  then show "extract_text_from_file e p =
           Inr ''DOCX parsing not available. Please install python-docx.''"
    by (auto simp: extract_text_from_file_def extract_text_body_def extract_docx_text_def
        try_except_def)
qed

theorem loader_total_witness:
  "extract_pdf_body env_broken ''resume.pdf'' = Inl (OtherException ''bad page'') \<and>
   extract_text_from_file env_broken ''resume.pdf'' = Inr [] \<and>
   extract_docx_body env_broken ''resume.docx'' = Inl (OtherException ''not a zip file'') \<and>
   extract_text_from_file env_broken ''resume.docx'' = Inr [] \<and>
   extract_text_from_file env_missing ''resume.pdf'' =
     Inr ''PDF parsing not available. Please install PyPDF2.'' \<and>
   extract_text_from_file env_missing ''resume.docx'' =
     Inr ''DOCX parsing not available. Please install python-docx.''"
  using loader_total [of env_broken "''resume.pdf''" "OtherException ''bad page''"]
        loader_total [of env_broken "''resume.docx''" "OtherException ''not a zip file''"]
        loader_total [of env_missing "''resume.pdf''"]
        loader_total [of env_missing "''resume.docx''"]
  by (simp add: ext_pdf ext_docx pdf_broken docx_broken env_flags)

text \<open>
  Claim C4 as stated fails where the optional dependency is missing: without a PDF library
  the loader returns the notice for a \<open>.pdf\<close> path, not the empty string.
\<close>

theorem loader_missing_dependency_counterexample:
  "\<not> pdf_parsing_available env_missing \<and>
   extract_text_from_file env_missing ''resume.pdf'' =
     Inr ''PDF parsing not available. Please install PyPDF2.'' \<and>
   extract_text_from_file env_missing ''resume.pdf'' \<noteq> Inr []"
  by code_simp

section \<open>Properties of the matcher\<close>

lemma rx_match_len:
  "st' \<in> set (rx_match ic r st) \<Longrightarrow> length (fst (snd st')) + min_len r \<le> length (fst (snd st))"
proof (induction ic r st arbitrary: st' rule: rx_match.induct)
  case (1 ic s p xs cs)
  then show ?case by (simp split: if_splits)
next
  case (2 ic cl p cs)
  then show ?case by simp
next
  case (3 ic cl p x xs cs)
  then show ?case by (simp split: if_splits)
next
  case (4 ic cl p cs)
  then show ?case by simp
next
  case (5 ic cl p x xs cs)
  then show ?case by (simp split: if_splits)
next
  case (6 ic r1 r2 st)
  from "6.prems" obtain st1 where a: "st1 \<in> set (rx_match ic r1 st)" and b: "st' \<in> set (rx_match ic r2 st1)"
    by auto
  from "6.IH"(1)[OF a] "6.IH"(2)[OF a b] show ?case by simp
next
  case (7 ic r1 r2 st)
  from "7.prems" have "st' \<in> set (rx_match ic r1 st) \<or> st' \<in> set (rx_match ic r2 st)" by simp
  then show ?case using "7.IH"(1)[of st'] "7.IH"(2)[of st'] by auto
next
  case (8 ic r p xs cs)
  from "8.prems" consider "st' = (p, xs, cs)" |
    st1 where "st1 \<in> set (rx_match ic r (p, xs, cs))" "length (fst (snd st1)) < length xs"
       "st' \<in> set (rx_match ic (Star r) st1)"
    by (auto split: if_splits)
  then show ?case
  proof cases
    case 1 then show ?thesis by simp
  next
    case 2
    from "8.IH"(2)[OF 2(1) 2(2) 2(3)] 2(2) show ?thesis by simp
  qed
next
  case (9 ic r p xs cs)
  from "9.prems" consider "st' = (p, xs, cs)" |
    st1 where "st1 \<in> set (rx_match ic r (p, xs, cs))" "length (fst (snd st1)) < length xs"
       "st' \<in> set (rx_match ic (LazyStar r) st1)"
    by (auto split: if_splits)
  then show ?case
  proof cases
    case 1 then show ?thesis by simp
  next
    case 2
    from "9.IH"(2)[OF 2(1) 2(2) 2(3)] 2(2) show ?thesis by simp
  qed
next
  case (10 ic r st)
  from "10.prems" have "st' \<in> set (rx_match ic r st) \<or> st' = st" by auto
  then show ?case using "10.IH"[of st'] by auto
next
  case (11 ic n r p xs cs)
  from "11.prems" obtain st1 where a: "st1 \<in> set (rx_match ic r (p, xs, cs))"
     and b: "fst (snd st') = fst (snd st1)"
    by (auto split: prod.splits)
  from "11.IH"[OF a] b show ?case by simp
next
  case (12 ic p xs cs)
  then show ?case by (simp split: if_splits)
next
  case (13 ic p xs cs)
  then show ?case by (simp split: if_splits)
next
  case (14 ic p xs cs)
  then show ?case by (simp add: Let_def split: if_splits)
next
  case (15 ic r st)
  then show ?case by (simp split: if_splits)
qed

lemma rx_match_caps_mono:
  "st' \<in> set (rx_match ic r st) \<Longrightarrow> n \<in> fst ` set (snd (snd st)) \<Longrightarrow> n \<in> fst ` set (snd (snd st'))"
proof (induction ic r st arbitrary: st' rule: rx_match.induct)
  case (1 ic s p xs cs)
  then show ?case by (auto split: if_splits)
next
  case (2 ic cl p cs)
  then show ?case by simp
next
  case (3 ic cl p x xs cs)
  then show ?case by (auto split: if_splits)
next
  case (4 ic cl p cs)
  then show ?case by simp
next
  case (5 ic cl p x xs cs)
  then show ?case by (auto split: if_splits)
next
  case (6 ic r1 r2 st)
  from "6.prems" obtain st1 where a: "st1 \<in> set (rx_match ic r1 st)" and b: "st' \<in> set (rx_match ic r2 st1)"
    by auto
  from "6.IH"(2)[OF a b "6.IH"(1)[OF a "6.prems"(2)]] show ?case .
next
  case (7 ic r1 r2 st)
  from "7.prems" have "st' \<in> set (rx_match ic r1 st) \<or> st' \<in> set (rx_match ic r2 st)" by simp
  then show ?case using "7.IH"(1)[of st'] "7.IH"(2)[of st'] "7.prems"(2) by blast
next
  case (8 ic r p xs cs)
  from "8.prems" consider "st' = (p, xs, cs)" |
    st1 where "st1 \<in> set (rx_match ic r (p, xs, cs))" "length (fst (snd st1)) < length xs"
       "st' \<in> set (rx_match ic (Star r) st1)"
    by (auto split: if_splits)
  then show ?case
  proof cases
    case 1 with "8.prems" show ?thesis by simp
  next
    case 2
    from "8.IH"(2)[OF 2(1) 2(2) 2(3) "8.IH"(1)[OF 2(1) "8.prems"(2)]] show ?thesis .
  qed
next
  case (9 ic r p xs cs)
  from "9.prems" consider "st' = (p, xs, cs)" |
    st1 where "st1 \<in> set (rx_match ic r (p, xs, cs))" "length (fst (snd st1)) < length xs"
       "st' \<in> set (rx_match ic (LazyStar r) st1)"
    by (auto split: if_splits)
  then show ?case
  proof cases
    case 1 with "9.prems" show ?thesis by simp
  next
    case 2
    from "9.IH"(2)[OF 2(1) 2(2) 2(3) "9.IH"(1)[OF 2(1) "9.prems"(2)]] show ?thesis .
  qed
next
  case (10 ic r st)
  from "10.prems" have "st' \<in> set (rx_match ic r st) \<or> st' = st" by auto
  then show ?case using "10.IH"[of st'] "10.prems"(2) by blast
next
  case (11 ic k r p xs cs)
  from "11.prems"(1) obtain st1 where a: "st1 \<in> set (rx_match ic r (p, xs, cs))"
     and b: "snd (snd st') = (k, take (length xs - length (fst (snd st1))) xs) # snd (snd st1)"
    by (auto split: prod.splits)
  from "11.IH"[OF a "11.prems"(2)] b show ?case by auto
next
  case (12 ic p xs cs)
  then show ?case by (auto split: if_splits)
next
  case (13 ic p xs cs)
  then show ?case by (auto split: if_splits)
next
  case (14 ic p xs cs)
  then show ?case by (auto simp: Let_def split: if_splits)
next
  case (15 ic r st)
  then show ?case by (auto split: if_splits)
qed

lemma rx_match_sets_grp:
  "st' \<in> set (rx_match ic r st) \<Longrightarrow> sets_grp n r \<Longrightarrow> n \<in> fst ` set (snd (snd st'))"
proof (induction ic r st arbitrary: st' rule: rx_match.induct)
  case (6 ic r1 r2 st)
  from "6.prems" obtain st1 where a: "st1 \<in> set (rx_match ic r1 st)" and b: "st' \<in> set (rx_match ic r2 st1)"
    by auto
  show ?case
  proof (cases "sets_grp n r2")
    case True
    from "6.IH"(2)[OF a b True] show ?thesis .
  next
    case False
    with "6.prems"(2) have "sets_grp n r1" by simp
    from rx_match_caps_mono[OF b "6.IH"(1)[OF a this]] show ?thesis .
  qed
next
  case (7 ic r1 r2 st)
  from "7.prems" have "st' \<in> set (rx_match ic r1 st) \<or> st' \<in> set (rx_match ic r2 st)" by simp
  then show ?case using "7.IH"(1)[of st'] "7.IH"(2)[of st'] "7.prems"(2) by auto
next
  case (11 ic k r p xs cs)
  from "11.prems"(1) obtain st1 where a: "st1 \<in> set (rx_match ic r (p, xs, cs))"
     and b: "snd (snd st') = (k, take (length xs - length (fst (snd st1))) xs) # snd (snd st1)"
    by (auto split: prod.splits)
  show ?case
  proof (cases "k = n")
    case True with b show ?thesis by simp
  next
    case False
    with "11.prems"(2) have "sets_grp n r" by simp
    from "11.IH"[OF a this] b show ?thesis by auto
  qed
qed simp_all

lemma search_from_sets_grp:
  "search_from ic r p xs = Some (s0, st) \<Longrightarrow> sets_grp n r \<Longrightarrow> n \<in> fst ` set (snd (snd st))"
proof (induction xs arbitrary: p)
  case Nil
  then have "st \<in> set (rx_match ic r (p, [], []))"
    by (auto split: list.splits)
  then show ?case using Nil.prems(2) by (rule rx_match_sets_grp)
next
  case (Cons x xs)
  show ?case
  proof (cases "rx_match ic r (p, x # xs, [])")
    case Nil
    with Cons.prems(1) have "search_from ic r (Some x) xs = Some (s0, st)" by simp
    then show ?thesis using Cons.prems(2) by (rule Cons.IH)
  next
    case (Cons st1 rest)
    with Cons.prems(1) have "st \<in> set (rx_match ic r (p, x # xs, []))" by auto
    then show ?thesis using Cons.prems(2) by (rule rx_match_sets_grp)
  qed
qed

lemma re_search_group:
  assumes "re_search ic r t = Some mt" and "sets_grp n r"
  shows "\<exists>g. match_group mt n = Some g"
proof -
  from assms(1) obtain s0 p xs cs where a: "search_from ic r None t = Some (s0, (p, xs, cs))"
    and b: "captures mt = cs"
    by (auto simp: re_search_def to_rmatch_def)
  from search_from_sets_grp[OF a assms(2)] have "n \<in> fst ` set cs" by simp
  then have "map_of cs n \<noteq> None" by (simp add: map_of_eq_None_iff)
  with b show ?thesis by (auto simp: match_group_def)
qed

lemma first_match_group:
  assumes "first_match ic ps t = Some mt" and "\<forall>r \<in> set ps. sets_grp n r"
  shows "\<exists>g. match_group mt n = Some g"
  using assms
proof (induction ps)
  case Nil
  then show ?case by simp
next
  case (Cons r ps)
  show ?case
  proof (cases "re_search ic r t")
    case None
    with Cons show ?thesis by simp
  next
    case (Some m1)
    with Cons.prems have "mt = m1" and "sets_grp n r" by simp_all
    with Some show ?thesis using re_search_group by blast
  qed
qed

section \<open>The structure of the pipeline\<close>

lemma parse_resume_with_total: "\<exists>profile. parse_resume_with M e p = Inr profile"
  by (simp add: parse_resume_with_def try_except_total)

lemma parse_resume_with_raise:
  "parse_resume_body M e p = Inl ex \<Longrightarrow> parse_resume_with M e p = Inr create_empty_result"
  by (simp add: parse_resume_with_def try_except_def)

lemma parse_resume_body_blank:
  "extract_text_from_file e p = Inr text \<Longrightarrow> py_strip text = [] \<Longrightarrow>
   parse_resume_body M e p = Inr create_empty_result"
  by (simp add: parse_resume_body_def and_then_def)

lemma parse_resume_with_cases:
  assumes "parse_resume_with M e p = Inr profile"
  shows "profile = create_empty_result \<or>
         (\<exists>text parsed. extract_text_from_file e p = Inr text \<and> py_strip text \<noteq> [] \<and>
            extract_fields M text = Inr parsed \<and>
            profile = parsed\<lparr>confidence_scores := calculate_confidence_scores parsed text\<rparr>)"
  using assms
  by (auto simp: parse_resume_with_def parse_resume_body_def and_then_def try_except_def
      split: sum.splits if_splits)

lemma extract_fields_Inr:
  assumes "extract_fields M text = Inr parsed"
  shows "m_extract_name M text = Inr (name parsed)"
    and "m_extract_email M text = Inr (email parsed)"
    and "m_extract_phone M text = Inr (phone parsed)"
    and "m_extract_skills M text = Inr (skills parsed)"
    and "m_extract_experience M text = Inr (experience parsed)"
    and "m_extract_education M text = Inr (education parsed)"
    and "m_extract_work_history M text = Inr (work_history parsed)"
    and "m_extract_location M text = Inr (location parsed)"
    and "m_extract_salary_expectation M text = Inr (salary_expectation parsed)"
    and "raw_text parsed = take 2000 text"
  using assms
  by (auto simp: extract_fields_def and_then_def split: sum.splits)

lemma extract_fields_Inl:
  assumes "m_extract_name M text = Inl ex \<or> m_extract_email M text = Inl ex \<or>
           m_extract_phone M text = Inl ex \<or> m_extract_skills M text = Inl ex \<or>
           m_extract_experience M text = Inl ex \<or> m_extract_education M text = Inl ex \<or>
           m_extract_work_history M text = Inl ex \<or> m_extract_location M text = Inl ex \<or>
           m_extract_salary_expectation M text = Inl ex"
  shows "\<exists>ex'. extract_fields M text = Inl ex'"
  using assms
  by (auto simp: extract_fields_def and_then_def split: sum.splits)

lemma self_methods_simps:
  "m_extract_name (self_methods self e) = extract_name"
  "m_extract_email (self_methods self e) = (\<lambda>text. Inr (extract_email text))"
  "m_extract_phone (self_methods self e) = (\<lambda>text. Inr (extract_phone text))"
  "m_extract_skills (self_methods self e) = extract_skills self e"
  "m_extract_experience (self_methods self e) = extract_experience e"
  "m_extract_education (self_methods self e) = (\<lambda>text. Inr (extract_education text))"
  "m_extract_work_history (self_methods self e) = extract_work_history"
  "m_extract_location (self_methods self e) = extract_location"
  "m_extract_salary_expectation (self_methods self e) = (\<lambda>text. Inr (extract_salary_expectation text))"
  by (simp_all add: self_methods_def)

lemma parse_resume_cases:
  assumes "parse_resume self e p = Inr profile"
  shows "profile = create_empty_result \<or>
         (\<exists>text parsed. extract_text_from_file e p = Inr text \<and> py_strip text \<noteq> [] \<and>
            extract_fields (self_methods self e) text = Inr parsed \<and>
            profile = parsed\<lparr>confidence_scores := calculate_confidence_scores parsed text\<rparr>)"
  using assms unfolding parse_resume_def by (rule parse_resume_with_cases)

lemma parse_resume_total: "\<exists>profile. parse_resume self e p = Inr profile"
  unfolding parse_resume_def by (rule parse_resume_with_total)

section \<open>Which extractors can raise\<close>

lemma name_try_patterns_total:
  "\<forall>r \<in> set ps. sets_grp 1 r \<Longrightarrow> \<exists>v. name_try_patterns ps line = Inr v"
proof (induction ps)
  case Nil
  then show ?case by simp
next
  case (Cons r ps)
  then obtain v where v: "name_try_patterns ps line = Inr v" by auto
  show ?case
  proof (cases "re_search False r line")
    case None
    with v show ?thesis by simp
  next
    case (Some mt)
    from Cons.prems have "sets_grp 1 r" by simp
    from re_search_group[OF Some this] obtain g where "match_group mt 1 = Some g" ..
    with Some v show ?thesis
      by (simp add: group_str_def and_then_def Let_def)
  qed
qed

lemma name_patterns_grp: "\<forall>r \<in> set name_patterns. sets_grp 1 r"
  by (simp add: name_patterns_def)

lemma name_lines_total: "\<exists>v. name_lines ls = Inr v"
proof (induction ls)
  case Nil
  then show ?case by simp
next
  case (Cons l ls)
  from name_try_patterns_total[OF name_patterns_grp, of "py_strip l"]
  obtain v where "name_try_patterns name_patterns (py_strip l) = Inr v" ..
  with Cons show ?case
    by (auto simp: Let_def and_then_def split: option.splits)
qed

lemma extract_name_total: "\<exists>v. extract_name t = Inr v"
  by (simp add: extract_name_def name_lines_total)

lemma location_try_patterns_total:
  "\<forall>r \<in> set ps. sets_grp 1 r \<Longrightarrow> \<exists>v. location_try_patterns ps t = Inr v"
proof (induction ps)
  case Nil
  then show ?case by simp
next
  case (Cons r ps)
  then obtain v where v: "location_try_patterns ps t = Inr v" by auto
  show ?case
  proof (cases "re_search True r t")
    case None
    with v show ?thesis by simp
  next
    case (Some mt)
    from Cons.prems have "sets_grp 1 r" by simp
    from re_search_group[OF Some this] obtain g where "match_group mt 1 = Some g" ..
    with Some v show ?thesis
      by (simp add: group_str_def and_then_def Let_def)
  qed
qed

lemma location_patterns_grp: "\<forall>r \<in> set location_patterns. sets_grp 1 r"
  by (simp add: location_patterns_def)

lemma extract_location_total: "\<exists>v. extract_location t = Inr v"
  by (simp add: extract_location_def location_try_patterns_total[OF location_patterns_grp])

lemma skills_section_grp: "sets_grp 1 skills_section_pattern"
  by (simp add: skills_section_pattern_def)

lemma skills_from_section_total: "\<exists>v. skills_from_section t found = Inr v"
proof (cases "re_search True skills_section_pattern t")
  case None
  then show ?thesis by (simp add: skills_from_section_def)
next
  case (Some mt)
  from re_search_group[OF Some skills_section_grp] obtain g where "match_group mt 1 = Some g" ..
  with Some show ?thesis by (simp add: skills_from_section_def and_then_def)
qed

lemma extract_skills_total: "\<exists>v. extract_skills self e t = Inr v"
proof -
  from skills_from_section_total obtain v where "skills_from_section t (skills_direct t []) = Inr v" ..
  then show ?thesis by (simp add: extract_skills_def and_then_def)
qed

lemma job_patterns_grp: "\<forall>r \<in> set job_patterns. sets_grp 1 r \<and> sets_grp 2 r"
  by (simp add: job_patterns_def)

lemma close_job_ok: "description j = None \<Longrightarrow> job_ok (close_job j ds)"
  by (simp add: close_job_def job_ok_def)

lemma work_lines_step:
  "\<exists>jobs2 cur2 ds2.
     (work_lines (line0 # rest) jobs cur ds = work_lines rest jobs2 cur2 ds2) \<and>
     (jobs2 = jobs \<or> (\<exists>j. cur = Some j \<and> jobs2 = jobs @ [close_job j ds])) \<and>
     (cur2 = cur \<or> (\<exists>j. cur2 = Some j \<and> description j = None))"
proof (cases "py_strip line0 = []")
  case True
  then show ?thesis by (auto simp: Let_def)
next
  case False
  show ?thesis
  proof (cases "first_match False job_patterns (py_strip line0)")
    case None
    with False show ?thesis by (auto simp: Let_def)
  next
    case (Some mt)
    from first_match_group[OF Some, of 1] job_patterns_grp
    obtain g1 where g1: "match_group mt 1 = Some g1" by auto
    from first_match_group[OF Some, of 2] job_patterns_grp
    obtain g2 where g2: "match_group mt 2 = Some g2" by auto
    let ?nj = "\<lparr>title = py_strip g1, company = py_strip g2,
                 dates = (case match_group mt 3 of None \<Rightarrow> []
                          | Some g3 \<Rightarrow> if g3 \<noteq> [] then py_strip g3 else []),
                 description = None\<rparr>"
    have d: "description ?nj = None" by simp
    show ?thesis
    proof (cases cur)
      case None
      with False Some g1 g2
      have "work_lines (line0 # rest) jobs cur ds = work_lines rest jobs (Some ?nj) ds"
        by (simp add: Let_def group_str_def and_then_def)
      with d show ?thesis by blast
    next
      case (Some j)
      with False \<open>first_match False job_patterns (py_strip line0) = Some mt\<close> g1 g2
      have "work_lines (line0 # rest) jobs cur ds =
            work_lines rest (jobs @ [close_job j ds]) (Some ?nj) []"
        by (simp add: Let_def group_str_def and_then_def)
      with d Some show ?thesis by blast
    qed
  qed
qed

lemma work_lines_total: "\<exists>res. work_lines ls jobs cur ds = Inr res"
proof (induction ls arbitrary: jobs cur ds)
  case Nil
  then show ?case by simp
next
  case (Cons l ls)
  from work_lines_step[of l ls jobs cur ds] obtain jobs2 cur2 ds2 where
    "work_lines (l # ls) jobs cur ds = work_lines ls jobs2 cur2 ds2" by blast
  with Cons[of jobs2 cur2 ds2] show ?case by simp
qed

lemma extract_work_history_total: "\<exists>v. extract_work_history t = Inr v"
proof (cases "re_search True work_section_pattern t")
  case None
  then show ?thesis by (simp add: extract_work_history_def)
next
  case (Some mt)
  have "sets_grp 1 work_section_pattern" by (simp add: work_section_pattern_def)
  from re_search_group[OF Some this] obtain g where g: "match_group mt 1 = Some g" ..
  from work_lines_total obtain res where "work_lines (split_on nl g) [] None [] = Inr res" ..
  with Some g show ?thesis
    by (cases res) (simp add: extract_work_history_def group_str_def and_then_def)
qed

section \<open>An input on which an extractor raises\<close>

lemma py_strip_Nil_iff: "py_strip s = [] \<longleftrightarrow> (\<forall>c \<in> set s. py_isspace c)"
proof -
  have "py_strip s = [] \<longleftrightarrow> dropWhile py_isspace (rev (dropWhile py_isspace s)) = []"
    by (simp add: py_strip_def)
  also have "\<dots> \<longleftrightarrow> (\<forall>c \<in> set (dropWhile py_isspace s). py_isspace c)"
    by (simp add: dropWhile_eq_Nil_conv)
  also have "\<dots> \<longleftrightarrow> (\<forall>c \<in> set s. py_isspace c)"
  proof
    assume a: "\<forall>c \<in> set (dropWhile py_isspace s). py_isspace c"
    have "dropWhile py_isspace s = []"
    proof (rule ccontr)
      assume "dropWhile py_isspace s \<noteq> []"
      then have "\<not> py_isspace (hd (dropWhile py_isspace s))" by (rule hd_dropWhile)
      moreover from \<open>dropWhile py_isspace s \<noteq> []\<close> have "hd (dropWhile py_isspace s) \<in> set (dropWhile py_isspace s)"
        by simp
      ultimately show False using a by blast
    qed
    then show "\<forall>c \<in> set s. py_isspace c" by (simp add: dropWhile_eq_Nil_conv)
  next
    assume "\<forall>c \<in> set s. py_isspace c"
    then show "\<forall>c \<in> set (dropWhile py_isspace s). py_isspace c"
      by (meson set_dropWhileD)
  qed
  finally show ?thesis .
qed

lemma digits_group_nodigit:
  "\<not> py_isdecimal x \<Longrightarrow> rx_match ic (Seq (Grp 1 (rx_plus rx_d)) R) (p, x # xs, cs) = []"
  by (simp add: rx_plus_def in_set_def)

lemma star_digits:
  "\<forall>c \<in> set ds. py_isdecimal c \<Longrightarrow> \<not> py_isdecimal y \<Longrightarrow>
   \<exists>rest. rx_match ic (Star rx_d) (p, ds @ y # ys, cs) =
          (if ds = [] then p else Some (last ds), y # ys, cs) # rest"
proof (induction ds arbitrary: p)
  case Nil
  then show ?case by (simp add: in_set_def)
next
  case (Cons c ds)
  from Cons.prems have c: "py_isdecimal c" and ds: "\<forall>c \<in> set ds. py_isdecimal c" by simp_all
  from Cons.IH[OF ds Cons.prems(2), of "Some c"] obtain rest where
    r: "rx_match ic (Star rx_d) (Some c, ds @ y # ys, cs) =
          (if ds = [] then Some c else Some (last ds), y # ys, cs) # rest" by blast
  have "rx_match ic (Star rx_d) (p, (c # ds) @ y # ys, cs) =
        rx_match ic (Star rx_d) (Some c, ds @ y # ys, cs) @ [(p, (c # ds) @ y # ys, cs)]"
    using c by (simp add: in_set_def)
  with r show ?case by auto
qed

lemma digits_group_match:
  assumes "ds \<noteq> []" and "\<forall>c \<in> set ds. py_isdecimal c" and "\<not> py_isdecimal y"
    and "rx_match ic R (Some (last ds), y # ys, (1, ds) # cs) = st # others"
  shows "\<exists>rest. rx_match ic (Seq (Grp 1 (rx_plus rx_d)) R) (p, ds @ y # ys, cs) = st # rest"
proof -
  from assms(1) obtain c ds' where ds: "ds = c # ds'" by (cases ds) auto
  with assms(2) have c: "py_isdecimal c" and ds': "\<forall>c \<in> set ds'. py_isdecimal c" by simp_all
  from star_digits[OF ds' assms(3), of ic "Some c" ys cs] obtain rest where
    r: "rx_match ic (Star rx_d) (Some c, ds' @ y # ys, cs) =
          (if ds' = [] then Some c else Some (last ds'), y # ys, cs) # rest" by blast
  have l: "(if ds' = [] then Some c else Some (last ds')) = Some (last ds)"
    using ds by simp
  have "rx_match ic (rx_plus rx_d) (p, ds @ y # ys, cs) = (Some (last ds), y # ys, cs) # rest"
    using c r l ds by (simp add: rx_plus_def in_set_def)
  then have "rx_match ic (Grp 1 (rx_plus rx_d)) (p, ds @ y # ys, cs) =
       (Some (last ds), y # ys, (1, ds) # cs) #
       map (\<lambda>(p', xs', cs'). (p', xs', (1, take (length (ds @ y # ys) - length xs') (ds @ y # ys)) # cs')) rest"
    by simp
  then show ?thesis using assms(4) by simp
qed

lemma exp_patterns_head: "\<exists>rest. exp_patterns = Seq (Grp 1 (rx_plus rx_d)) exp_tail # rest"
  by (simp add: exp_patterns_def exp_tail_def)

lemma exp_tail_match:
  "rx_match True exp_tail (p, '' years experience'', cs) = [(Some CHR ''e'', [], cs)]"
  by code_simp

lemma search_skip:
  assumes "\<And>q y ys. y \<in> set pre \<Longrightarrow> rx_match ic r (q, y # ys, []) = []"
  shows "search_from ic r p (pre @ x # xs) =
         search_from ic r (if pre = [] then p else Some (last pre)) (x # xs)"
  using assms
proof (induction pre arbitrary: p)
  case Nil
  then show ?case by simp
next
  case (Cons c pre)
  have e: "rx_match ic r (p, c # (pre @ x # xs), []) = []"
    by (rule Cons.prems) simp
  have "search_from ic r p ((c # pre) @ x # xs) = search_from ic r (Some c) (pre @ x # xs)"
    by (simp add: e)
  also have "\<dots> = search_from ic r (if pre = [] then Some c else Some (last pre)) (x # xs)"
    by (rule Cons.IH) (simp add: Cons.prems)
  finally show ?case by simp
qed

lemma py_int_overflow:
  "ds \<noteq> [] \<Longrightarrow> \<forall>c \<in> set ds. py_isdecimal c \<Longrightarrow> 0 < maxd \<Longrightarrow> maxd < length ds \<Longrightarrow>
   py_int maxd ds = Inl ValueError"
  by (simp add: py_int_def list_all_iff)

lemma experience_overflow:
  assumes pre: "\<forall>c \<in> set pre. \<not> py_isdecimal c"
    and ds: "ds \<noteq> []" "\<forall>c \<in> set ds. py_isdecimal c"
    and lim: "0 < int_max_str_digits e" "int_max_str_digits e < length ds"
  shows "extract_experience e (pre @ ds @ '' years experience'') = Inl ValueError"
proof -
  define P where "P = Seq (Grp 1 (rx_plus rx_d)) exp_tail"
  define S where "S = ''years experience''"
  define p0 where "p0 = (if pre = [] then None else Some (last pre))"
  define st0 :: mstate where "st0 = (Some CHR ''e'', [], [(1, ds)])"
  obtain d ds' where dd: "ds = d # ds'" using ds(1) by (cases ds) auto
  have sp: "\<not> py_isdecimal CHR '' ''" by code_simp
  have nod: "rx_match True P (q, y # ys, []) = []" if "y \<in> set pre" for q y ys
    unfolding P_def using that pre by (intro digits_group_nodigit) blast
  have tl: "rx_match True exp_tail (Some (last ds), CHR '' '' # S, (1, ds) # []) = st0 # []"
    unfolding S_def st0_def using exp_tail_match[of "Some (last ds)" "[(1, ds)]"] by simp
  from digits_group_match[OF ds sp tl, of p0]
  obtain rest where m: "rx_match True P (p0, ds @ CHR '' '' # S, []) = st0 # rest"
    unfolding P_def by blast
  have s1: "search_from True P None (pre @ d # (ds' @ CHR '' '' # S)) =
            search_from True P p0 (d # (ds' @ CHR '' '' # S))"
    unfolding p0_def by (rule search_skip) (rule nod)
  have s2: "search_from True P p0 (d # (ds' @ CHR '' '' # S)) = Some (d # (ds' @ CHR '' '' # S), st0)"
    using m by (simp add: dd)
  have t: "pre @ ds @ '' years experience'' = pre @ d # (ds' @ CHR '' '' # S)"
    by (simp add: dd S_def)
  have "re_search True P (pre @ ds @ '' years experience'') =
      Some (to_rmatch (d # (ds' @ CHR '' '' # S), st0))"
    unfolding re_search_def t s1 s2 by simp
  then have fm: "first_match True (P # ps) (pre @ ds @ '' years experience'') =
      Some (to_rmatch (d # (ds' @ CHR '' '' # S), st0))" for ps
    by (simp only: first_match.simps option.case)
  obtain ps where ps: "exp_patterns = P # ps" unfolding P_def using exp_patterns_head by blast
  have "first_match True exp_patterns (pre @ ds @ '' years experience'') =
      Some (to_rmatch (d # (ds' @ CHR '' '' # S), st0))"
    unfolding ps by (rule fm)
  moreover have "match_group (to_rmatch (d # (ds' @ CHR '' '' # S), st0)) 1 = Some ds"
    by (simp add: match_group_def to_rmatch_def st0_def)
  ultimately show ?thesis
    using py_int_overflow[OF ds lim] by (simp add: extract_experience_def and_then_def)
qed

lemma extract_fields_self_raise:
  assumes "extract_experience e tx = Inl ex"
  shows "\<exists>ex'. extract_fields (self_methods self e) tx = Inl ex'"
  by (rule extract_fields_Inl[where ex = ex]) (simp add: self_methods_simps assms)

lemma parse_resume_body_raise:
  assumes "extract_text_from_file e p = Inr tx" and "py_strip tx \<noteq> []"
    and "extract_fields M tx = Inl ex"
  shows "parse_resume_body M e p = Inl ex"
  using assms by (simp add: parse_resume_body_def and_then_def)

lemma long_digits_props:
  "long_digits \<noteq> []" "\<forall>c \<in> set long_digits. py_isdecimal c" "length long_digits = 4301"
proof -
  have "py_isdecimal CHR ''7''" by code_simp
  then show "\<forall>c \<in> set long_digits. py_isdecimal c" by (simp add: long_digits_def)
qed (simp_all add: long_digits_def)

lemma overflow_experience: "extract_experience env_overflow overflow_text = Inl ValueError"
proof -
  have pre: "\<forall>c \<in> set (''John Smith'' @ [nl]). \<not> py_isdecimal c" by code_simp
  have lim: "0 < int_max_str_digits env_overflow" "int_max_str_digits env_overflow < length long_digits"
    by (simp_all add: env_overflow_def env_ok_def long_digits_props)
  from experience_overflow[OF pre long_digits_props(1,2) lim]
  show ?thesis by (simp add: overflow_text_def)
qed

lemma overflow_strip: "py_strip overflow_text \<noteq> []"
proof -
  have "\<not> py_isspace CHR ''J''" by code_simp
  then have "\<not> (\<forall>c \<in> set overflow_text. py_isspace c)" by (auto simp: overflow_text_def)
  then show ?thesis by (simp add: py_strip_Nil_iff)
qed

lemma overflow_loader: "extract_text_from_file env_overflow ''resume.docx'' = Inr overflow_text"
proof -
  have "docx_text_parts \<lparr>paragraphs = [overflow_text], tables = []\<rparr> = [overflow_text]"
    by (simp add: docx_text_parts_def overflow_strip)
  then have "extract_docx_body env_overflow ''resume.docx'' = Inr overflow_text"
    by (simp add: extract_docx_body_def env_overflow_def and_then_def)
  moreover have "docx_parsing_available env_overflow" by (simp add: env_overflow_def env_ok_def)
  ultimately show ?thesis
    by (simp add: extract_text_from_file_def extract_text_body_def extract_docx_text_def
        try_except_def ext_docx)
qed

lemma overflow_body:
  "\<exists>ex. parse_resume_body (self_methods self env_overflow) env_overflow ''resume.docx'' = Inl ex"
proof -
  from extract_fields_self_raise[OF overflow_experience] obtain ex where
    "extract_fields (self_methods self env_overflow) overflow_text = Inl ex" by blast
  from parse_resume_body_raise[OF overflow_loader overflow_strip this] show ?thesis by blast
qed

lemma name_lines_hit:
  "name_lines [l] = Inr (Some n) \<Longrightarrow> name_lines (l # ls) = Inr (Some n)"
  by (simp add: Let_def and_then_def split: if_splits sum.splits option.splits)

lemma split_on_append:
  "d \<notin> set a \<Longrightarrow> split_on d (a @ d # b) = a # split_on d b"
  by (induction a) auto

lemma john: "name_lines [''John Smith''] = Inr (Some ''John Smith'')"
  by code_simp

lemma overflow_name: "extract_name overflow_text = Inr (Some ''John Smith'')"
proof -
  have "nl \<notin> set ''John Smith''" by simp
  from split_on_append[OF this]
  have "split_on nl overflow_text = ''John Smith'' # split_on nl (long_digits @ '' years experience'')"
    by (simp add: overflow_text_def)
  then have "take 10 (split_on nl overflow_text) =
             ''John Smith'' # take 9 (split_on nl (long_digits @ '' years experience''))"
    by simp
  then show ?thesis
    unfolding extract_name_def by (simp only: name_lines_hit[OF john])
qed

section \<open>The fields of a parsed profile\<close>

lemma parse_resume_fields:
  assumes "extract_text_from_file e p = Inr tx" and "py_strip tx \<noteq> []"
    and "extract_experience e tx = Inr x"
  shows "\<exists>parsed. extract_fields (self_methods self e) tx = Inr parsed \<and>
           parse_resume self e p =
             Inr (parsed\<lparr>confidence_scores := calculate_confidence_scores parsed tx\<rparr>)"
proof -
  obtain a where a: "extract_name tx = Inr a" using extract_name_total by blast
  obtain b where b: "extract_skills self e tx = Inr b" using extract_skills_total by blast
  obtain c where c: "extract_work_history tx = Inr c" using extract_work_history_total by blast
  obtain d where d: "extract_location tx = Inr d" using extract_location_total by blast
  have f: "\<exists>parsed. extract_fields (self_methods self e) tx = Inr parsed"
    by (simp add: extract_fields_def self_methods_simps and_then_def a b c d assms(3))
  then obtain parsed where "extract_fields (self_methods self e) tx = Inr parsed" ..
  then show ?thesis using assms(1,2)
    by (auto simp: parse_resume_def parse_resume_with_def parse_resume_body_def and_then_def
        try_except_def)
qed

section \<open>The format of the experience field\<close>

lemma dates_body_format:
  assumes "dates_body e tx = Inr (Some v)"
  shows "\<exists>N. 0 < N \<and> N \<le> 50 \<and> v = show_nat N @ ''+ years''"
proof -
  define ys where "ys = findall False year_pattern 1 tx"
  define D where "D yi = int (min (fold max (tl yi) (hd yi)) (now_year e)) -
                         int (fold min (tl yi) (hd yi))" for yi
  have b: "dates_body e tx =
        (if 2 \<le> length ys
         then and_then (map_exn (py_int (int_max_str_digits e)) ys) (\<lambda>yi.
                if 0 < D yi \<and> D yi \<le> 50
                then Inr (Some (show_nat (nat (D yi)) @ ''+ years'')) else Inr None)
         else Inr None)"
    unfolding dates_body_def Let_def ys_def D_def by (rule refl)
  show ?thesis
  proof (cases "2 \<le> length ys")
    case False
    with assms b show ?thesis by simp
  next
    case True
    show ?thesis
    proof (cases "map_exn (py_int (int_max_str_digits e)) ys")
      case (Inl ex)
      with assms b True show ?thesis by (simp add: and_then_def)
    next
      case (Inr yi)
      show ?thesis
      proof (cases "0 < D yi \<and> D yi \<le> 50")
        case False
        with assms b True Inr show ?thesis by (simp add: and_then_def)
      next
        case d: True
        with assms b True Inr have "v = show_nat (nat (D yi)) @ ''+ years''"
          by (simp add: and_then_def)
        with d show ?thesis by (intro exI[of _ "nat (D yi)"]) auto
      qed
    qed
  qed
qed

lemma calculate_experience_format:
  assumes "calculate_experience_from_dates e tx = Inr (Some v)"
  shows "\<exists>N. 0 < N \<and> N \<le> 50 \<and> v = show_nat N @ ''+ years''"
proof (cases "dates_body e tx")
  case (Inl ex)
  with assms show ?thesis
    by (simp add: calculate_experience_from_dates_def try_except_def)
next
  case (Inr r)
  with assms have "dates_body e tx = Inr (Some v)"
    by (simp add: calculate_experience_from_dates_def try_except_def)
  then show ?thesis by (rule dates_body_format)
qed


lemma experience_format:
  assumes "extract_experience e tx = Inr (Some v)"
  shows "\<exists>N. v = show_nat N @ ''+ years'' \<and>
             (first_match True exp_patterns tx = None \<longrightarrow> 0 < N \<and> N \<le> 50)"
proof (cases "first_match True exp_patterns tx")
  case None
  then have b: "extract_experience e tx =
      and_then (calculate_experience_from_dates e tx) (\<lambda>work_years.
            if truthy work_years then Inr work_years else Inr None)"
    by (simp add: extract_experience_def)
  have "calculate_experience_from_dates e tx = Inr (Some v)"
  proof (cases "calculate_experience_from_dates e tx")
    case (Inl ex)
    with assms b show ?thesis by (simp add: and_then_def)
  next
    case (Inr r)
    with assms b show ?thesis by (cases "truthy r") (simp_all add: and_then_def)
  qed
  from calculate_experience_format[OF this] show ?thesis by blast
next
  case (Some mt)
  define r where "r = (case match_group mt 1 of None \<Rightarrow> Inl TypeError
                       | Some g \<Rightarrow> py_int (int_max_str_digits e) g)"
  from Some have b: "extract_experience e tx =
      and_then r (\<lambda>years. Inr (Some (show_nat years @ ''+ years'')))"
    by (simp add: extract_experience_def r_def)
  show ?thesis
  proof (cases r)
    case (Inl ex)
    with assms b show ?thesis by (simp add: and_then_def)
  next
    case (Inr years)
    with assms b have "v = show_nat years @ ''+ years''" by (simp add: and_then_def)
    with Some show ?thesis by auto
  qed
qed

lemma experience_nonempty: "extract_experience e tx = Inr (Some v) \<Longrightarrow> v \<noteq> []"
proof -
  assume "extract_experience e tx = Inr (Some v)"
  from experience_format[OF this] obtain N where "v = show_nat N @ ''+ years''" by blast
  then show ?thesis by simp
qed

section \<open>A field that is present is not the empty string\<close>

lemma name_try_patterns_tokens:
  "name_try_patterns ps line = Inr (Some n) \<Longrightarrow>
   1 \<le> length (py_split n) \<and> length (py_split n) \<le> 3"
proof (induction ps)
  case Nil
  then show ?case by simp
next
  case (Cons r ps)
  show ?case
  proof (cases "re_search False r line")
    case None
    with Cons show ?thesis by simp
  next
    case (Some mt)
    show ?thesis
    proof (cases "group_str mt 1")
      case (Inl ex)
      with Some Cons.prems show ?thesis by (simp add: and_then_def)
    next
      case (Inr g)
      define ok where "ok = (1 \<le> length (py_split (py_strip g)) \<and>
          length (py_split (py_strip g)) \<le> 3 \<and> looks_like_name (py_split (py_strip g)))"
      from Some Inr have b: "name_try_patterns (r # ps) line =
          (if ok then Inr (Some (py_strip g)) else name_try_patterns ps line)"
        by (simp add: and_then_def Let_def ok_def)
      show ?thesis
      proof (cases ok)
        case True
        with b Cons.prems have "n = py_strip g" by simp
        with True show ?thesis by (simp add: ok_def)
      next
        case False
        with b Cons.prems have "name_try_patterns ps line = Inr (Some n)" by simp
        then show ?thesis by (rule Cons.IH)
      qed
    qed
  qed
qed

lemma name_lines_tokens:
  "name_lines ls = Inr (Some n) \<Longrightarrow> 1 \<le> length (py_split n) \<and> length (py_split n) \<le> 3"
proof (induction ls)
  case Nil
  then show ?case by simp
next
  case (Cons l ls)
  define skip where "skip = (length (py_strip l) < 3 \<or> 50 < length (py_strip l) \<or>
      list_ex (\<lambda>word. py_in word (py_lower (py_strip l))) skip_words)"
  have b: "name_lines (l # ls) =
      (if skip then name_lines ls
       else and_then (name_try_patterns name_patterns (py_strip l)) (\<lambda>r.
              case r of Some n \<Rightarrow> Inr (Some n) | None \<Rightarrow> name_lines ls))"
    by (simp add: Let_def skip_def)
  show ?case
  proof (cases skip)
    case True
    with b Cons.prems have "name_lines ls = Inr (Some n)" by simp
    then show ?thesis by (rule Cons.IH)
  next
    case False
    show ?thesis
    proof (cases "name_try_patterns name_patterns (py_strip l)")
      case (Inl ex)
      with b False Cons.prems show ?thesis by (simp add: and_then_def)
    next
      case (Inr r)
      show ?thesis
      proof (cases r)
        case None
        with b False Inr Cons.prems have "name_lines ls = Inr (Some n)"
          by (simp add: and_then_def)
        then show ?thesis by (rule Cons.IH)
      next
        case (Some m)
        with b False Inr Cons.prems have "m = n" by (simp add: and_then_def)
        with Some Inr show ?thesis using name_try_patterns_tokens by blast
      qed
    qed
  qed
qed

lemma extract_name_tokens:
  "extract_name tx = Inr (Some n) \<Longrightarrow> 1 \<le> length (py_split n) \<and> length (py_split n) \<le> 3"
  unfolding extract_name_def by (rule name_lines_tokens)

lemma extract_name_nonempty: "extract_name tx = Inr (Some n) \<Longrightarrow> n \<noteq> []"
proof
  assume a: "extract_name tx = Inr (Some n)" and "n = []"
  then have "py_split n = []" by (simp add: py_split_def)
  with extract_name_tokens[OF a] show False by simp
qed

lemma search_from_state:
  "search_from ic r p xs = Some (s0, st) \<Longrightarrow> \<exists>q. st \<in> set (rx_match ic r (q, s0, []))"
proof (induction xs arbitrary: p)
  case Nil
  then have "st \<in> set (rx_match ic r (p, [], []))" and "s0 = []"
    by (auto split: list.splits)
  then show ?case by blast
next
  case (Cons x xs)
  show ?case
  proof (cases "rx_match ic r (p, x # xs, [])")
    case Nil
    with Cons.prems have "search_from ic r (Some x) xs = Some (s0, st)" by simp
    then show ?thesis by (rule Cons.IH)
  next
    case (Cons st1 rest)
    with Cons.prems have "st \<in> set (rx_match ic r (p, x # xs, []))" and "s0 = x # xs" by auto
    then show ?thesis by blast
  qed
qed

lemma findall_from_state:
  "mt \<in> set (findall_from ic r p xs) \<Longrightarrow>
   \<exists>q s0 st. st \<in> set (rx_match ic r (q, s0, [])) \<and> mt = to_rmatch (s0, st)"
proof (induction ic r p xs rule: findall_from.induct)
  case (1 ic r p xs)
  show ?case
  proof (cases "search_from ic r p xs")
    case None
    with "1.prems" show ?thesis by (simp add: findall_from.simps[of ic r p xs])
  next
    case (Some a)
    obtain s0 p' xs' cs where a: "a = (s0, (p', xs', cs))" by (cases a) auto
    from search_from_state[of ic r p xs s0 "(p', xs', cs)"] Some a
    obtain q where q: "(p', xs', cs) \<in> set (rx_match ic r (q, s0, []))" by auto
    have u: "findall_from ic r p xs = to_rmatch (s0, (p', xs', cs)) #
        (if length xs' < length xs then findall_from ic r p' xs'
         else (case xs of [] \<Rightarrow> [] | c # ys \<Rightarrow> findall_from ic r (Some c) ys))"
      using Some a by (simp add: findall_from.simps[of ic r p xs])
    show ?thesis
    proof (cases "mt = to_rmatch (s0, (p', xs', cs))")
      case True
      with q show ?thesis by blast
    next
      case False
      show ?thesis
      proof (cases "length xs' < length xs")
        case True
        with "1.prems" u False have "mt \<in> set (findall_from ic r p' xs')" by simp
        from "1.IH"(1)[OF Some a[symmetric] refl refl True this] show ?thesis .
      next
        case nl: False
        show ?thesis
        proof (cases xs)
          case Nil
          with "1.prems" u False nl show ?thesis by simp
        next
          case (Cons c ys)
          with "1.prems" u False nl have "mt \<in> set (findall_from ic r (Some c) ys)" by simp
          from "1.IH"(2)[OF Some a[symmetric] refl refl nl Cons this] show ?thesis .
        qed
      qed
    qed
  qed
qed

lemma group0_len:
  assumes "st \<in> set (rx_match ic r (q, s0, []))"
  shows "min_len r \<le> length (group0 (to_rmatch (s0, st)))"
proof -
  obtain p xs cs where st: "st = (p, xs, cs)" by (cases st) auto
  from rx_match_len[OF assms] st have "length xs + min_len r \<le> length s0" by simp
  then show ?thesis by (simp add: to_rmatch_def st)
qed

lemma findall0_nonempty:
  assumes "0 < min_len r" and "s \<in> set (findall ic r 0 tx)"
  shows "s \<noteq> []"
proof -
  from assms(2) obtain mt where mt: "mt \<in> set (findall_from ic r None tx)" and s: "s = group0 mt"
    by (auto simp: findall_def)
  from findall_from_state[OF mt] obtain q s0 st where
    "st \<in> set (rx_match ic r (q, s0, []))" "mt = to_rmatch (s0, st)" by blast
  with group0_len[of st ic r q s0] assms(1) s show ?thesis by auto
qed

lemma email_min_len: "0 < min_len email_pattern"
  by code_simp

lemma extract_email_nonempty:
  assumes "extract_email tx = Some em"
  shows "em \<noteq> []"
proof -
  define valid where "valid = filter (\<lambda>em. \<not> list_ex (\<lambda>domain. py_in domain (py_lower em))
                                    [''example.com'', ''test.com'', ''placeholder''])
                   (findall False email_pattern 0 tx)"
  have b: "extract_email tx = (case valid of [] \<Rightarrow> None | em # _ \<Rightarrow> Some (py_lower em))"
    unfolding extract_email_def Let_def valid_def by (rule refl)
  with assms obtain x rest where v: "valid = x # rest" and em: "em = py_lower x"
    by (cases valid) auto
  from v have "x \<in> set valid" by simp
  then have "x \<in> set (findall False email_pattern 0 tx)" by (simp add: valid_def)
  from findall0_nonempty[OF email_min_len this] em show ?thesis by (simp add: py_lower_def)
qed

lemma digit_not_space: "py_isdecimal c \<Longrightarrow> \<not> py_isspace c"
  by (auto simp: py_isdecimal_def py_isspace_def Let_def)

lemma plus_not_space: "\<not> py_isspace CHR ''+''"
  by code_simp

lemma phone_first_valid_nonempty: "phone_first_valid ms = Some ph \<Longrightarrow> ph \<noteq> []"
proof (induction ms)
  case Nil
  then show ?case by simp
next
  case (Cons m ms)
  define hit where "hit = (10 \<le> length (filter (\<lambda>c. py_isdecimal c \<or> c = CHR ''+'') m) \<and>
                            length (filter (\<lambda>c. py_isdecimal c \<or> c = CHR ''+'') m) \<le> 15)"
  have b: "phone_first_valid (m # ms) = (if hit then Some (py_strip m) else phone_first_valid ms)"
    by (simp add: Let_def hit_def)
  show ?case
  proof (cases hit)
    case False
    with b Cons show ?thesis by simp
  next
    case True
    with b Cons.prems have ph: "ph = py_strip m" by simp
    from True have "filter (\<lambda>c. py_isdecimal c \<or> c = CHR ''+'') m \<noteq> []"
      by (auto simp: hit_def)
    then obtain c where "c \<in> set m" and "py_isdecimal c \<or> c = CHR ''+''"
      by (auto simp: filter_empty_conv)
    then have "\<not> (\<forall>c \<in> set m. py_isspace c)"
      using digit_not_space plus_not_space by blast
    with ph show ?thesis by (simp add: py_strip_Nil_iff)
  qed
qed

lemma phone_try_patterns_nonempty: "phone_try_patterns ps tx = Some ph \<Longrightarrow> ph \<noteq> []"
proof (induction ps)
  case Nil
  then show ?case by simp
next
  case (Cons a ps)
  obtain r ng where a: "a = (r, ng)" by (cases a) auto
  show ?case
  proof (cases "phone_first_valid (findall True r ng tx)")
    case None
    with Cons a show ?thesis by simp
  next
    case (Some x)
    with Cons.prems a have "x = ph" by simp
    with Some show ?thesis using phone_first_valid_nonempty by blast
  qed
qed

lemma extract_phone_nonempty: "extract_phone tx = Some ph \<Longrightarrow> ph \<noteq> []"
  unfolding extract_phone_def by (rule phone_try_patterns_nonempty)

lemma rx_match_caps_nonempty:
  "st' \<in> set (rx_match ic r st) \<Longrightarrow> caps_nonempty r \<Longrightarrow>
   list_all (\<lambda>c. snd c \<noteq> []) (snd (snd st)) \<Longrightarrow>
   list_all (\<lambda>c. snd c \<noteq> []) (snd (snd st'))"
proof (induction ic r st arbitrary: st' rule: rx_match.induct)
  case (1 ic s p xs cs)
  then show ?case by (auto split: if_splits)
next
  case (2 ic cl p cs)
  then show ?case by simp
next
  case (3 ic cl p x xs cs)
  then show ?case by (auto split: if_splits)
next
  case (4 ic cl p cs)
  then show ?case by simp
next
  case (5 ic cl p x xs cs)
  then show ?case by (auto split: if_splits)
next
  case (6 ic r1 r2 st)
  from "6.prems"(1) obtain st1 where a: "st1 \<in> set (rx_match ic r1 st)"
    and b: "st' \<in> set (rx_match ic r2 st1)" by auto
  from "6.prems"(2) have c1: "caps_nonempty r1" and c2: "caps_nonempty r2" by simp_all
  from "6.IH"(2)[OF a b c2 "6.IH"(1)[OF a c1 "6.prems"(3)]] show ?case .
next
  case (7 ic r1 r2 st)
  from "7.prems"(1) have "st' \<in> set (rx_match ic r1 st) \<or> st' \<in> set (rx_match ic r2 st)" by simp
  moreover from "7.prems"(2) have "caps_nonempty r1" "caps_nonempty r2" by simp_all
  ultimately show ?case using "7.IH"(1)[of st'] "7.IH"(2)[of st'] "7.prems"(3) by blast
next
  case (8 ic r p xs cs)
  from "8.prems"(2) have c: "caps_nonempty r" by simp
  from "8.prems"(1) consider "st' = (p, xs, cs)" |
    st1 where "st1 \<in> set (rx_match ic r (p, xs, cs))" "length (fst (snd st1)) < length xs"
       "st' \<in> set (rx_match ic (Star r) st1)"
    by (auto split: if_splits)
  then show ?case
  proof cases
    case 1 with "8.prems"(3) show ?thesis by simp
  next
    case 2
    from "8.IH"(2)[OF 2(1) 2(2) 2(3) "8.prems"(2) "8.IH"(1)[OF 2(1) c "8.prems"(3)]]
    show ?thesis .
  qed
next
  case (9 ic r p xs cs)
  from "9.prems"(2) have c: "caps_nonempty r" by simp
  from "9.prems"(1) consider "st' = (p, xs, cs)" |
    st1 where "st1 \<in> set (rx_match ic r (p, xs, cs))" "length (fst (snd st1)) < length xs"
       "st' \<in> set (rx_match ic (LazyStar r) st1)"
    by (auto split: if_splits)
  then show ?case
  proof cases
    case 1 with "9.prems"(3) show ?thesis by simp
  next
    case 2
    from "9.IH"(2)[OF 2(1) 2(2) 2(3) "9.prems"(2) "9.IH"(1)[OF 2(1) c "9.prems"(3)]]
    show ?thesis .
  qed
next
  case (10 ic r st)
  from "10.prems"(1) have "st' \<in> set (rx_match ic r st) \<or> st' = st" by auto
  moreover from "10.prems"(2) have "caps_nonempty r" by simp
  ultimately show ?case using "10.IH"[of st'] "10.prems"(3) by blast
next
  case (11 ic k r p xs cs)
  from "11.prems"(1) obtain st1 where a: "st1 \<in> set (rx_match ic r (p, xs, cs))"
     and b: "snd (snd st') = (k, take (length xs - length (fst (snd st1))) xs) # snd (snd st1)"
    by (auto split: prod.splits)
  from "11.prems"(2) have m: "0 < min_len r" and c: "caps_nonempty r" by simp_all
  from rx_match_len[OF a] m have "length (fst (snd st1)) < length xs" by simp
  then have "take (length xs - length (fst (snd st1))) xs \<noteq> []" by auto
  with "11.IH"[OF a c "11.prems"(3)] b show ?case by simp
next
  case (12 ic p xs cs)
  then show ?case by (auto split: if_splits)
next
  case (13 ic p xs cs)
  then show ?case by (auto split: if_splits)
next
  case (14 ic p xs cs)
  then show ?case by (auto simp: Let_def split: if_splits)
next
  case (15 ic r st)
  then show ?case by (auto split: if_splits)
qed

lemma findall1_nonempty:
  assumes "sets_grp 1 r" and "caps_nonempty r" and "s \<in> set (findall ic r 1 tx)"
  shows "s \<noteq> []"
proof -
  from assms(3) obtain mt where mt: "mt \<in> set (findall_from ic r None tx)"
    and s: "s = (case match_group mt 1 of None \<Rightarrow> [] | Some g \<Rightarrow> g)"
    by (auto simp: findall_def)
  from findall_from_state[OF mt] obtain q s0 st where
    st: "st \<in> set (rx_match ic r (q, s0, []))" and m: "mt = to_rmatch (s0, st)" by blast
  obtain p xs cs where t: "st = (p, xs, cs)" by (cases st) auto
  from rx_match_sets_grp[OF st assms(1)] t have "1 \<in> fst ` set cs" by simp
  then obtain g where g: "map_of cs 1 = Some g"
    by (cases "map_of cs 1") (auto simp: map_of_eq_None_iff)
  then have "(1, g) \<in> set cs" by (rule map_of_SomeD)
  moreover from rx_match_caps_nonempty[OF st assms(2)] t
  have "list_all (\<lambda>c. snd c \<noteq> []) cs" by simp
  ultimately have "g \<noteq> []" by (auto simp: list_all_iff)
  with g m t s show ?thesis by (simp add: match_group_def to_rmatch_def)
qed

lemma education_patterns_ok:
  "list_all (\<lambda>r. sets_grp 1 r \<and> caps_nonempty r) (university_pattern # education_patterns)"
  by code_simp

lemma py_join_nonempty: "x \<noteq> [] \<Longrightarrow> py_join sep (x # xs) \<noteq> []"
  by (cases xs) auto

lemma extract_education_nonempty:
  assumes "extract_education tx = Some v"
  shows "v \<noteq> []"
proof -
  define info where "info = concat (map (\<lambda>pattern. findall True pattern 1 tx) education_patterns) @
      take 2 (findall True university_pattern 1 tx)"
  have b: "extract_education tx = (if info \<noteq> [] then Some (py_join ''; '' (take 3 info)) else None)"
    unfolding extract_education_def Let_def info_def by (rule refl)
  have ne: "s \<noteq> []" if "s \<in> set info" for s
  proof -
    from that obtain r where "r \<in> set (university_pattern # education_patterns)"
      and s: "s \<in> set (findall True r 1 tx)"
      by (auto simp: info_def dest: in_set_takeD)
    with education_patterns_ok have "sets_grp 1 r" "caps_nonempty r"
      by (auto simp: list_all_iff)
    from findall1_nonempty[OF this s] show ?thesis .
  qed
  from assms b have i: "info \<noteq> []" and v: "v = py_join ''; '' (take 3 info)"
    by (auto split: if_splits)
  from i obtain x rest where x: "info = x # rest" by (cases info) auto
  then have "x \<noteq> []" using ne by simp
  with v x show ?thesis by (simp add: py_join_nonempty)
qed

section \<open>The overall confidence\<close>

lemma scores_shape:
  "\<exists>a b c d f g. calculate_confidence_scores parsed text =
     [(''name'', a), (''email'', b), (''phone'', c), (''skills'', d), (''experience'', f),
      (''education'', g), (''overall'', (a + b + c + d + f + g) / 6)]"
  by (simp add: calculate_confidence_scores_def Let_def)

lemma mean_scores:
  assumes "(scores :: (string \<times> rat) list) = [(''name'', a), (''email'', b), (''phone'', c), (''skills'', d), (''experience'', f),
      (''education'', g), (''overall'', (a + b + c + d + f + g) / 6)]"
  shows "map fst (filter (\<lambda>kv. fst kv \<noteq> ''overall'') scores) =
           [''name'', ''email'', ''phone'', ''skills'', ''experience'', ''education''] \<and>
         map_of scores ''overall'' =
           Some (sum_list (map snd (filter (\<lambda>kv. fst kv \<noteq> ''overall'') scores)) /
                 of_nat (length (filter (\<lambda>kv. fst kv \<noteq> ''overall'') scores)))"
  by (simp add: assms add.assoc)

lemma empty_scores:
  "confidence_scores create_empty_result = [(''name'', 0), (''email'', 0), (''phone'', 0), (''skills'', 0), (''experience'', 0),
      (''education'', 0), (''overall'', (0 + 0 + 0 + 0 + 0 + 0) / 6)]"
  by (simp add: create_empty_result_def)

text \<open>
  Claim C3. Every profile that \<open>parse_resume\<close> returns has the six per-field entries
  \<open>name\<close>, \<open>email\<close>, \<open>phone\<close>, \<open>skills\<close>, \<open>experience\<close> and \<open>education\<close> besides the key
  \<open>overall\<close>, and the value under \<open>overall\<close> is the sum of those six entries divided by their
  number: the unweighted arithmetic mean.
\<close>

theorem overall_is_mean:
  assumes "parse_resume self e p = Inr profile"
  shows "map fst (filter (\<lambda>kv. fst kv \<noteq> ''overall'') (confidence_scores profile)) =
           [''name'', ''email'', ''phone'', ''skills'', ''experience'', ''education''] \<and>
         map_of (confidence_scores profile) ''overall'' =
           Some (sum_list (map snd (filter (\<lambda>kv. fst kv \<noteq> ''overall'') (confidence_scores profile))) /
                 of_nat (length (filter (\<lambda>kv. fst kv \<noteq> ''overall'') (confidence_scores profile))))"
proof -
  from assms have "parse_resume_with (self_methods self e) e p = Inr profile"
    by (simp add: parse_resume_def)
  from parse_resume_with_cases[OF this]
  obtain a b c d f g where "confidence_scores profile =
     [(''name'', a), (''email'', b), (''phone'', c), (''skills'', d), (''experience'', f),
      (''education'', g), (''overall'', (a + b + c + d + f + g) / 6)]"
    using scores_shape empty_scores by fastforce
  then show ?thesis by (rule mean_scores)
qed

theorem overall_is_mean_witness:
  "\<exists>profile. parse_resume parser0 env_ok ''resume.pdf'' = Inr profile \<and>
     map_of (confidence_scores profile) ''overall'' =
       Some (sum_list (map snd (filter (\<lambda>kv. fst kv \<noteq> ''overall'') (confidence_scores profile))) /
             of_nat (length (filter (\<lambda>kv. fst kv \<noteq> ''overall'') (confidence_scores profile))))"
proof -
  obtain profile where a: "parse_resume parser0 env_ok ''resume.pdf'' = Inr profile"
    using parse_resume_total by blast
  from overall_is_mean[OF a] a show ?thesis by blast
qed

section \<open>Skills come from the taxonomy\<close>

lemma fold_insert_subset:
  "set (fold (\<lambda>skill found. if cond skill then List.insert skill found else found) xs found)
     \<subseteq> set found \<union> set xs"
proof (induction xs arbitrary: found)
  case Nil
  then show ?case by simp
next
  case (Cons a xs)
  show ?case
    using Cons.IH[of "List.insert a found"] Cons.IH[of found] by auto
qed

lemma add_skills_subset: "set (add_skills cond found) \<subseteq> set found \<union> set all_skills"
  unfolding add_skills_def by (rule fold_insert_subset)

lemma fold_add_skills_subset:
  "set (fold (\<lambda>c found. if P c then add_skills (Q c) found else found) cs found)
     \<subseteq> set found \<union> set all_skills"
proof (induction cs arbitrary: found)
  case Nil
  then show ?case by simp
next
  case (Cons c cs)
  show ?case
  proof (cases "P c")
    case True
    have "set (fold (\<lambda>c found. if P c then add_skills (Q c) found else found) cs (add_skills (Q c) found))
            \<subseteq> set (add_skills (Q c) found) \<union> set all_skills"
      by (rule Cons.IH)
    with add_skills_subset[of "Q c" found] True show ?thesis by auto
  next
    case False
    with Cons.IH[of found] show ?thesis by simp
  qed
qed

lemma skills_direct_subset: "set (skills_direct text found) \<subseteq> set found \<union> set all_skills"
  unfolding skills_direct_def by (rule add_skills_subset)

lemma skills_from_section_subset:
  assumes "skills_from_section text found = Inr r"
  shows "set r \<subseteq> set found \<union> set all_skills"
proof (cases "re_search True skills_section_pattern text")
  case None
  with assms show ?thesis by (simp add: skills_from_section_def)
next
  case (Some mt)
  show ?thesis
  proof (cases "match_group mt 1")
    case None
    with Some assms show ?thesis by (simp add: skills_from_section_def and_then_def)
  next
    case (Some g)
    with \<open>re_search True skills_section_pattern text = Some mt\<close> assms
    have "r = fold (\<lambda>c found. if py_strip c \<noteq> [] \<and> length (py_strip c) \<le> 30
                   then add_skills (\<lambda>skill. py_in (py_lower skill) (py_lower (py_strip c))) found
                   else found) (split_runs skill_delimiter False g) found"
      by (simp add: skills_from_section_def and_then_def Let_def)
    then show ?thesis
      using fold_add_skills_subset[of "\<lambda>c. py_strip c \<noteq> [] \<and> length (py_strip c) \<le> 30"
         "\<lambda>c skill. py_in (py_lower skill) (py_lower (py_strip c))"] by simp
  qed
qed

lemma skills_from_nlp_subset:
  "set (skills_from_nlp self e text found) \<subseteq> set found \<union> set all_skills"
proof (cases "nlp self")
  case None
  then show ?thesis by (simp add: skills_from_nlp_def)
next
  case (Some run_nlp)
  show ?thesis
  proof (cases "spacy_available e")
    case False
    with Some show ?thesis by (simp add: skills_from_nlp_def)
  next
    case True
    show ?thesis
    proof (cases "run_nlp text")
      case (Inl ex)
      with Some True show ?thesis by (simp add: skills_from_nlp_def)
    next
      case (Inr ents)
      have "(\<lambda>(ent_text, ent_label) found.
                 if ent_label \<in> set [''ORG'', ''PRODUCT''] \<and> length ent_text < 30
                 then add_skills (\<lambda>skill. py_lower skill = py_lower ent_text) found
                 else found) =
            (\<lambda>c found. if snd c \<in> set [''ORG'', ''PRODUCT''] \<and> length (fst c) < 30
                 then add_skills (\<lambda>skill. py_lower skill = py_lower (fst c)) found else found)"
        by (auto simp: fun_eq_iff)
      with Some True Inr show ?thesis
        using fold_add_skills_subset[of "\<lambda>c. snd c \<in> set [''ORG'', ''PRODUCT''] \<and> length (fst c) < 30"
           "\<lambda>c skill. py_lower skill = py_lower (fst c)" ents found]
        by (simp add: skills_from_nlp_def)
    qed
  qed
qed

lemma extract_skills_subset:
  assumes "extract_skills self e text = Inr found"
  shows "set found \<subseteq> set all_skills"
proof -
  from assms obtain f1 where a: "skills_from_section text (skills_direct text []) = Inr f1"
    and b: "found = sort (skills_from_nlp self e text f1)"
    by (auto simp: extract_skills_def and_then_def split: sum.splits)
  from skills_from_section_subset[OF a] skills_direct_subset[of "text" "[]"]
  have "set f1 \<subseteq> set all_skills" by auto
  with skills_from_nlp_subset[of self e "text" f1] b show ?thesis by auto
qed

text \<open>
  Claim C5. Every string in the result of \<open>_extract_skills\<close>, and so every string in the
  \<open>skills\<close> of a profile that \<open>parse_resume\<close> returns, is an entry of \<open>all_skills\<close>, the
  flattened lists of the skill taxonomy. This holds for each of the three paths (the
  whole-word search, the tokens of the skills section, the entities of the NLP model),
  whatever the text and whatever entities the model reports.
\<close>

theorem skills_in_taxonomy:
  "(extract_skills self e text = Inr found \<longrightarrow> set found \<subseteq> set all_skills) \<and>
   (parse_resume self e p = Inr profile \<longrightarrow> set (skills profile) \<subseteq> set all_skills) \<and>
   set all_skills = (\<Union>category \<in> set skill_taxonomy. set (snd category))"
proof (intro conjI impI)
  assume "extract_skills self e text = Inr found"
  then show "set found \<subseteq> set all_skills" by (rule extract_skills_subset)
next
  assume "parse_resume self e p = Inr profile"
  from parse_resume_cases[OF this] show "set (skills profile) \<subseteq> set all_skills"
  proof
    assume "profile = create_empty_result"
    then show ?thesis by (simp add: create_empty_result_def)
  next
    assume "\<exists>text parsed. extract_text_from_file e p = Inr text \<and> py_strip text \<noteq> [] \<and>
            extract_fields (self_methods self e) text = Inr parsed \<and>
            profile = parsed\<lparr>confidence_scores := calculate_confidence_scores parsed text\<rparr>"
    then obtain tx parsed where f: "extract_fields (self_methods self e) tx = Inr parsed"
      and p: "profile = parsed\<lparr>confidence_scores := calculate_confidence_scores parsed tx\<rparr>"
      by blast
    from extract_fields_Inr(4)[OF f] have "extract_skills self e tx = Inr (skills parsed)"
      by (simp add: self_methods_simps)
    from extract_skills_subset[OF this] p show ?thesis by simp
  qed
next
  show "set all_skills = (\<Union>category \<in> set skill_taxonomy. set (snd category))"
    by (simp add: all_skills_def)
qed

theorem skills_in_taxonomy_witness:
  "(\<exists>found. extract_skills parser0 env_ok sample_text = Inr found \<and>
             set found \<subseteq> set all_skills) \<and>
   (\<exists>profile. parse_resume parser0 env_ok ''resume.pdf'' = Inr profile \<and>
               set (skills profile) \<subseteq> set all_skills)"
proof -
  obtain found where a: "extract_skills parser0 env_ok sample_text = Inr found"
    using extract_skills_total by blast
  obtain profile where b: "parse_resume parser0 env_ok ''resume.pdf'' = Inr profile"
    using parse_resume_total by blast
  from a b skills_in_taxonomy[of parser0 env_ok sample_text found "''resume.pdf''" profile]
  show ?thesis by blast
qed

section \<open>The bounds of the work history\<close>

lemma work_lines_inv:
  "work_lines ls jobs cur ds = Inr (jobs', cur', ds') \<Longrightarrow>
   \<forall>j \<in> set jobs. job_ok j \<Longrightarrow> \<forall>j. cur = Some j \<longrightarrow> description j = None \<Longrightarrow>
   (\<forall>j \<in> set jobs'. job_ok j) \<and> (\<forall>j. cur' = Some j \<longrightarrow> description j = None)"
proof (induction ls arbitrary: jobs cur ds)
  case Nil
  then show ?case by simp
next
  case (Cons l ls)
  from work_lines_step[of l ls jobs cur ds] obtain jobs2 cur2 ds2 where
    s: "work_lines (l # ls) jobs cur ds = work_lines ls jobs2 cur2 ds2"
    and j: "jobs2 = jobs \<or> (\<exists>j. cur = Some j \<and> jobs2 = jobs @ [close_job j ds])"
    and c: "cur2 = cur \<or> (\<exists>j. cur2 = Some j \<and> description j = None)" by blast
  from j Cons.prems(2,3) have a: "\<forall>j \<in> set jobs2. job_ok j"
    by (auto simp: close_job_ok)
  from c Cons.prems(3) have b: "\<forall>j. cur2 = Some j \<longrightarrow> description j = None" by auto
  from Cons.prems(1) s have "work_lines ls jobs2 cur2 ds2 = Inr (jobs', cur', ds')" by simp
  from Cons.IH[OF this a b] show ?case .
qed

lemma extract_work_history_ok:
  assumes "extract_work_history t = Inr jobs"
  shows "length jobs \<le> 5 \<and> (\<forall>j \<in> set jobs. job_ok j)"
proof (cases "re_search True work_section_pattern t")
  case None
  with assms show ?thesis by (simp add: extract_work_history_def)
next
  case (Some mt)
  show ?thesis
  proof (cases "group_str mt 1")
    case (Inl ex)
    with Some assms show ?thesis by (simp add: extract_work_history_def and_then_def)
  next
    case (Inr g)
    show ?thesis
    proof (cases "work_lines (split_on nl g) [] None []")
      case (Inl ex)
      with Some \<open>group_str mt 1 = Inr g\<close> assms show ?thesis
        by (simp add: extract_work_history_def and_then_def)
    next
      case (Inr res)
      obtain jobs' cur' ds' where res: "res = (jobs', cur', ds')" by (cases res) auto
      from work_lines_inv[of "split_on nl g" "[]" None "[]" jobs' cur' ds'] Inr res
      have inv: "(\<forall>j \<in> set jobs'. job_ok j) \<and> (\<forall>j. cur' = Some j \<longrightarrow> description j = None)"
        by simp
      from Some \<open>group_str mt 1 = Inr g\<close> Inr res assms
      have j: "jobs = take 5 (case cur' of None \<Rightarrow> jobs' | Some j \<Rightarrow> jobs' @ [close_job j ds'])"
        by (simp add: extract_work_history_def and_then_def)
      have "\<forall>j \<in> set (case cur' of None \<Rightarrow> jobs' | Some j \<Rightarrow> jobs' @ [close_job j ds']). job_ok j"
        using inv by (auto simp: close_job_ok split: option.splits)
      with j show ?thesis by (auto dest: in_set_takeD)
    qed
  qed
qed

text \<open>
  Claim C9. The result of \<open>_extract_work_history\<close>, and so the \<open>work_history\<close> of every
  profile that \<open>parse_resume\<close> returns, has at most 5 entries, and an entry that has a
  description has at most 3 lines in it.
\<close>

theorem work_history_bounds:
  "(extract_work_history t = Inr jobs \<longrightarrow>
      length jobs \<le> 5 \<and> (\<forall>j \<in> set jobs. \<forall>d. description j = Some d \<longrightarrow> length d \<le> 3)) \<and>
   (parse_resume self e p = Inr profile \<longrightarrow>
      length (work_history profile) \<le> 5 \<and>
      (\<forall>j \<in> set (work_history profile). \<forall>d. description j = Some d \<longrightarrow> length d \<le> 3))"
proof (intro conjI impI)
  assume a: "extract_work_history t = Inr jobs"
  from extract_work_history_ok[OF a] show "length jobs \<le> 5" by simp
  from extract_work_history_ok[OF a]
  show "\<forall>j \<in> set jobs. \<forall>d. description j = Some d \<longrightarrow> length d \<le> 3"
    by (simp add: job_ok_def)
next
  assume a: "parse_resume self e p = Inr profile"
  have "length (work_history profile) \<le> 5 \<and> (\<forall>j \<in> set (work_history profile). job_ok j)"
    using parse_resume_cases[OF a]
  proof
    assume "profile = create_empty_result"
    then show ?thesis by (simp add: create_empty_result_def)
  next
    assume "\<exists>tx parsed. extract_text_from_file e p = Inr tx \<and> py_strip tx \<noteq> [] \<and>
            extract_fields (self_methods self e) tx = Inr parsed \<and>
            profile = parsed\<lparr>confidence_scores := calculate_confidence_scores parsed tx\<rparr>"
    then obtain tx parsed where f: "extract_fields (self_methods self e) tx = Inr parsed"
      and p: "profile = parsed\<lparr>confidence_scores := calculate_confidence_scores parsed tx\<rparr>"
      by blast
    from extract_fields_Inr(7)[OF f] have "extract_work_history tx = Inr (work_history parsed)"
      by (simp add: self_methods_simps)
    from extract_work_history_ok[OF this] p show ?thesis by simp
  qed
  then show "length (work_history profile) \<le> 5"
    and "\<forall>j \<in> set (work_history profile). \<forall>d. description j = Some d \<longrightarrow> length d \<le> 3"
    by (simp_all add: job_ok_def)
qed

lemma jobs_eval: "extract_work_history jobs_text = Inr jobs_expected"
  by code_simp

lemma jobs_experience: "extract_experience env_jobs jobs_text = Inr None"
  by code_simp

lemma jobs_loader: "extract_text_from_file env_jobs ''resume.docx'' = Inr jobs_text"
  by code_simp

lemma jobs_strip: "py_strip jobs_text \<noteq> []"
proof -
  have "\<not> py_isspace CHR ''E''" by code_simp
  then have "\<not> (\<forall>c \<in> set jobs_text. py_isspace c)" by (auto simp: jobs_text_def)
  then show ?thesis by (simp add: py_strip_Nil_iff)
qed

text \<open>
  The bounds at work: seven job headers give five entries, and the four marked lines under
  the first header give a description of three.
\<close>

theorem work_history_bounds_witness:
  "extract_work_history jobs_text = Inr jobs_expected \<and>
   length jobs_expected = 5 \<and>
   map description jobs_expected = [Some [''p'', ''q'', ''r''], None, None, None, None] \<and>
   (\<exists>profile. parse_resume parser0 env_jobs ''resume.docx'' = Inr profile \<and>
      work_history profile = jobs_expected \<and>
      length (work_history profile) \<le> 5 \<and>
      list_all (\<lambda>j. case description j of None \<Rightarrow> True | Some d \<Rightarrow> length d \<le> 3)
               (work_history profile))"
proof -
  from parse_resume_fields[OF jobs_loader jobs_strip jobs_experience, of parser0]
  obtain parsed where f: "extract_fields (self_methods parser0 env_jobs) jobs_text = Inr parsed"
    and p: "parse_resume parser0 env_jobs ''resume.docx'' =
       Inr (parsed\<lparr>confidence_scores := calculate_confidence_scores parsed jobs_text\<rparr>)"
    by blast
  from extract_fields_Inr(7)[OF f] jobs_eval have w: "work_history parsed = jobs_expected"
    by (simp add: self_methods_simps)
  define profile where
    "profile = parsed\<lparr>confidence_scores := calculate_confidence_scores parsed jobs_text\<rparr>"
  have pw: "work_history profile = jobs_expected" by (simp add: profile_def w)
  from work_history_bounds[of jobs_text jobs_expected parser0 env_jobs "''resume.docx''" profile]
    jobs_eval p
  have b: "length (work_history profile) \<le> 5 \<and>
         (\<forall>j \<in> set (work_history profile). \<forall>d. description j = Some d \<longrightarrow> length d \<le> 3)"
    by (simp add: profile_def)
  then have "list_all (\<lambda>j. case description j of None \<Rightarrow> True | Some d \<Rightarrow> length d \<le> 3)
               (work_history profile)"
    by (auto simp: list_all_iff split: option.splits)
  moreover have "length jobs_expected = 5"
    "map description jobs_expected = [Some [''p'', ''q'', ''r''], None, None, None, None]"
    by (simp_all add: jobs_expected_def)
  ultimately show ?thesis using jobs_eval p pw b unfolding profile_def by blast
qed

section \<open>The top-level handler\<close>

lemma ok_loader: "extract_text_from_file env_ok ''resume.pdf'' = Inr sample_text"
  by code_simp

lemma ok_strip: "py_strip sample_text \<noteq> []"
proof -
  have "\<not> py_isspace CHR ''J''" by code_simp
  then have "\<not> (\<forall>c \<in> set sample_text. py_isspace c)" by (auto simp: sample_text_def)
  then show ?thesis by (simp add: py_strip_Nil_iff)
qed

lemma raising_body:
  "parse_resume_body raising_methods env_ok ''resume.pdf'' = Inl (OtherException ''name'')"
proof -
  have "extract_fields raising_methods sample_text = Inl (OtherException ''name'')"
    by (simp add: extract_fields_def raising_methods_def and_then_def)
  from parse_resume_body_raise[OF ok_loader ok_strip this] show ?thesis .
qed

lemma blank_loader: "extract_text_from_file env_blank ''resume.pdf'' = Inr []"
  by code_simp

text \<open>
  Claim C1. For every file path, every parser and every behaviour of the libraries,
  \<open>parse_resume\<close> returns a profile and does not raise; when the \<open>try\<close> block raises, the
  handler returns the canonical empty profile. Both hold for the methods of the class and
  for any nine methods put in their place, whatever they raise.
\<close>

theorem parse_resume_never_raises:
  "(\<exists>profile. parse_resume self e p = Inr profile) \<and>
   (parse_resume_body (self_methods self e) e p = Inl ex \<longrightarrow>
      parse_resume self e p = Inr create_empty_result) \<and>
   (\<exists>profile. parse_resume_with M e p = Inr profile) \<and>
   (parse_resume_body M e p = Inl ex \<longrightarrow> parse_resume_with M e p = Inr create_empty_result)"
  by (simp add: parse_resume_total parse_resume_with_total parse_resume_with_raise parse_resume_def)

theorem parse_resume_never_raises_witness:
  "(\<exists>ex. parse_resume_body (self_methods parser0 env_overflow) env_overflow ''resume.docx'' = Inl ex) \<and>
   parse_resume parser0 env_overflow ''resume.docx'' = Inr create_empty_result \<and>
   parse_resume_body raising_methods env_ok ''resume.pdf'' = Inl (OtherException ''name'') \<and>
   parse_resume_with raising_methods env_ok ''resume.pdf'' = Inr create_empty_result"
proof -
  from overflow_body obtain ex where
    a: "parse_resume_body (self_methods parser0 env_overflow) env_overflow ''resume.docx'' = Inl ex"
    by blast
  from parse_resume_never_raises[of parser0 env_overflow "''resume.docx''" ex raising_methods] a
  have "parse_resume parser0 env_overflow ''resume.docx'' = Inr create_empty_result" by blast
  moreover
  from parse_resume_never_raises[of parser0 env_ok "''resume.pdf''" "OtherException ''name''" raising_methods]
    raising_body
  have "parse_resume_with raising_methods env_ok ''resume.pdf'' = Inr create_empty_result" by blast
  ultimately show ?thesis using a raising_body by blast
qed

text \<open>
  Claim C2. When the loader yields a text that is empty or consists of whitespace, the
  \<open>try\<close> block of \<open>parse_resume\<close> returns the canonical empty profile by its early
  \<open>return\<close>: it does so for any nine methods, also for methods that raise whenever they are
  called, so no extractor is invoked. In that profile every optional field is None or
  empty and each of the seven confidence scores, \<open>overall\<close> among them, is 0.
\<close>

theorem empty_text_short_circuit:
  assumes "extract_text_from_file e p = Inr tx" and "py_strip tx = []"
  shows "parse_resume_body M e p = Inr create_empty_result \<and>
         parse_resume_with M e p = Inr create_empty_result \<and>
         parse_resume self e p = Inr create_empty_result \<and>
         name create_empty_result = None \<and> email create_empty_result = None \<and>
         phone create_empty_result = None \<and> skills create_empty_result = [] \<and>
         experience create_empty_result = None \<and> education create_empty_result = None \<and>
         work_history create_empty_result = [] \<and> location create_empty_result = None \<and>
         salary_expectation create_empty_result = None \<and> raw_text create_empty_result = [] \<and>
         map fst (confidence_scores create_empty_result) =
           [''name'', ''email'', ''phone'', ''skills'', ''experience'', ''education'', ''overall''] \<and>
         list_all (\<lambda>kv. snd kv = 0) (confidence_scores create_empty_result)"
proof -
  have b: "parse_resume_body M e p = Inr create_empty_result" for M
    using assms by (rule parse_resume_body_blank)
  then have "parse_resume_with M e p = Inr create_empty_result" for M
    by (simp add: parse_resume_with_def try_except_def)
  with b show ?thesis
    by (simp add: parse_resume_def create_empty_result_def)
qed

theorem empty_text_short_circuit_witness:
  "extract_text_from_file env_blank ''resume.pdf'' = Inr [] \<and> py_strip [] = [] \<and>
   parse_resume_body raising_methods env_blank ''resume.pdf'' = Inr create_empty_result \<and>
   parse_resume parser0 env_blank ''resume.pdf'' = Inr create_empty_result"
proof -
  have s: "py_strip [] = []" by (simp add: py_strip_def)
  from empty_text_short_circuit[OF blank_loader s, of raising_methods parser0] blank_loader s
  show ?thesis by blast
qed

text \<open>
  Claim C10. For a path whose extension is \<open>.txt\<close>, or any extension other than \<open>.pdf\<close>,
  \<open>.docx\<close> and \<open>.doc\<close>, the loader returns the empty string and \<open>parse_resume\<close> returns the
  canonical empty profile, in every environment, so whatever the file holds. For \<open>.txt\<close>
  the \<open>try\<close> block of the loader raises NameError: the name \<open>aiofiles\<close> is not bound in the
  module.
\<close>

theorem plain_text_always_empty:
  assumes "file_extension p \<notin> set [''.pdf'', ''.docx'', ''.doc'']"
  shows "extract_text_from_file e p = Inr [] \<and>
         parse_resume self e p = Inr create_empty_result \<and>
         (file_extension p = ''.txt'' \<longrightarrow> extract_text_body e p = Inl NameError)"
proof -
  have a: "extract_text_from_file e p = Inr []"
    using assms by (rule extract_text_other)
  have "py_strip [] = []" by (simp add: py_strip_def)
  from parse_resume_body_blank[OF a this]
  have "parse_resume self e p = Inr create_empty_result"
    by (simp add: parse_resume_def parse_resume_with_def try_except_def)
  moreover have "file_extension p = ''.txt'' \<longrightarrow> extract_text_body e p = Inl NameError"
    by (simp add: extract_text_body_def aiofiles_open_read_def)
  ultimately show ?thesis using a by blast
qed

lemma ext_md: "file_extension ''notes.md'' = ''.md''"
  by code_simp

theorem plain_text_always_empty_witness:
  "extract_text_from_file env_ok ''resume.txt'' = Inr [] \<and>
   parse_resume parser0 env_ok ''resume.txt'' = Inr create_empty_result \<and>
   extract_text_body env_ok ''resume.txt'' = Inl NameError \<and>
   extract_text_from_file env_ok ''notes.md'' = Inr [] \<and>
   parse_resume parser0 env_ok ''notes.md'' = Inr create_empty_result"
  using plain_text_always_empty[of "''resume.txt''" env_ok parser0]
        plain_text_always_empty[of "''notes.md''" env_ok parser0]
  by (simp add: ext_txt ext_md)

text \<open>
  Claim C8, as the code has it. The extractors are called inside the one \<open>try\<close> block of
  \<open>parse_resume\<close> and have no handler of their own: when any of them raises on a text that is
  not blank, the handler of \<open>parse_resume\<close> returns the canonical empty profile, in which no
  field of any extractor is left. For the methods of the class this happens when
  \<open>_extract_experience\<close> raises. Only two steps inside extractors have a handler of their
  own: a spaCy model that raises leaves the skills found so far unchanged, and
  \<open>_calculate_experience_from_dates\<close> never raises.
\<close>

theorem extractor_failure_empties_profile:
  "(extract_text_from_file e p = Inr tx \<and> py_strip tx \<noteq> [] \<and>
    (m_extract_name M tx = Inl ex \<or> m_extract_email M tx = Inl ex \<or>
     m_extract_phone M tx = Inl ex \<or> m_extract_skills M tx = Inl ex \<or>
     m_extract_experience M tx = Inl ex \<or> m_extract_education M tx = Inl ex \<or>
     m_extract_work_history M tx = Inl ex \<or> m_extract_location M tx = Inl ex \<or>
     m_extract_salary_expectation M tx = Inl ex)
      \<longrightarrow> parse_resume_with M e p = Inr create_empty_result) \<and>
   (extract_text_from_file e p = Inr tx \<and> py_strip tx \<noteq> [] \<and> extract_experience e tx = Inl ex
      \<longrightarrow> parse_resume self e p = Inr create_empty_result) \<and>
   (nlp self = Some run_nlp \<and> run_nlp tx = Inl ex
      \<longrightarrow> skills_from_nlp self e tx found = found) \<and>
   (\<exists>v. calculate_experience_from_dates e tx = Inr v)"
proof (intro conjI impI)
  assume a: "extract_text_from_file e p = Inr tx \<and> py_strip tx \<noteq> [] \<and>
    (m_extract_name M tx = Inl ex \<or> m_extract_email M tx = Inl ex \<or>
     m_extract_phone M tx = Inl ex \<or> m_extract_skills M tx = Inl ex \<or>
     m_extract_experience M tx = Inl ex \<or> m_extract_education M tx = Inl ex \<or>
     m_extract_work_history M tx = Inl ex \<or> m_extract_location M tx = Inl ex \<or>
     m_extract_salary_expectation M tx = Inl ex)"
  then obtain ex' where "extract_fields M tx = Inl ex'"
    using extract_fields_Inl[of M tx ex] by blast
  with a have "parse_resume_body M e p = Inl ex'"
    by (simp add: parse_resume_body_raise)
  then show "parse_resume_with M e p = Inr create_empty_result"
    by (rule parse_resume_with_raise)
next
  assume a: "extract_text_from_file e p = Inr tx \<and> py_strip tx \<noteq> [] \<and> extract_experience e tx = Inl ex"
  then obtain ex' where "extract_fields (self_methods self e) tx = Inl ex'"
    using extract_fields_self_raise by blast
  with a have "parse_resume_body (self_methods self e) e p = Inl ex'"
    by (simp add: parse_resume_body_raise)
  then show "parse_resume self e p = Inr create_empty_result"
    unfolding parse_resume_def by (rule parse_resume_with_raise)
next
  assume "nlp self = Some run_nlp \<and> run_nlp tx = Inl ex"
  then show "skills_from_nlp self e tx found = found"
    by (simp add: skills_from_nlp_def)
next
  show "\<exists>v. calculate_experience_from_dates e tx = Inr v"
    by (simp add: calculate_experience_from_dates_def try_except_total)
qed

theorem extractor_failure_empties_profile_witness:
  "m_extract_experience raising_methods sample_text = Inl (OtherException ''experience'') \<and>
   parse_resume_with raising_methods env_ok ''resume.pdf'' = Inr create_empty_result \<and>
   extract_experience env_overflow overflow_text = Inl ValueError \<and>
   parse_resume parser0 env_overflow ''resume.docx'' = Inr create_empty_result \<and>
   skills_from_nlp parser_bad_nlp env_ok sample_text [''Python''] = [''Python'']"
proof -
  have r: "m_extract_experience raising_methods sample_text = Inl (OtherException ''experience'')"
    by (simp add: raising_methods_def)
  have n: "nlp parser_bad_nlp = Some (\<lambda>text. Inl (OtherException ''model error''))"
    by (simp add: parser_bad_nlp_def)
  from extractor_failure_empties_profile[where e = env_ok and p = "''resume.pdf''"
      and tx = sample_text and M = raising_methods and ex = "OtherException ''experience''"]
    ok_loader ok_strip r
  have "parse_resume_with raising_methods env_ok ''resume.pdf'' = Inr create_empty_result" by blast
  moreover
  from extractor_failure_empties_profile[where e = env_overflow and p = "''resume.docx''"
      and tx = overflow_text and ex = ValueError and self = parser0]
    overflow_loader overflow_strip overflow_experience
  have "parse_resume parser0 env_overflow ''resume.docx'' = Inr create_empty_result" by blast
  moreover
  from extractor_failure_empties_profile[where tx = sample_text
      and ex = "OtherException ''model error''" and self = parser_bad_nlp
      and run_nlp = "\<lambda>text. Inl (OtherException ''model error'')" and e = env_ok
      and found = "[''Python'']"] n
  have "skills_from_nlp parser_bad_nlp env_ok sample_text [''Python''] = [''Python'']" by blast
  ultimately show ?thesis using r overflow_experience by blast
qed

text \<open>
  Claim C8 as stated fails on a text with a name line and an experience phrase of 4301
  digits: \<open>int\<close> raises ValueError in the experience extractor, the name extractor returns
  \<open>John Smith\<close> on the same text, and the profile that \<open>parse_resume\<close> returns is the empty
  one, whose name is None.
\<close>

theorem per_extractor_catch_counterexample:
  "extract_experience env_overflow overflow_text = Inl ValueError \<and>
   extract_name overflow_text = Inr (Some ''John Smith'') \<and>
   extract_text_from_file env_overflow ''resume.docx'' = Inr overflow_text \<and>
   parse_resume parser0 env_overflow ''resume.docx'' = Inr create_empty_result \<and>
   name create_empty_result = None"
proof -
  from overflow_body obtain ex where
    "parse_resume_body (self_methods parser0 env_overflow) env_overflow ''resume.docx'' = Inl ex"
    by blast
  then have "parse_resume parser0 env_overflow ''resume.docx'' = Inr create_empty_result"
    unfolding parse_resume_def by (rule parse_resume_with_raise)
  then show ?thesis
    by (simp add: overflow_experience overflow_name overflow_loader create_empty_result_def)
qed

section \<open>The experience field is not bounded on the explicit path\<close>

text \<open>
  Claim C7. The claim bounds the number in \<open>"<N>+ years"\<close> by 50 on both paths of
  \<open>_extract_experience\<close>. The year-span fallback has the bound (lemma
  \<open>experience_format\<close>: without an explicit phrase the result is \<open>show_nat N @ "+ years"\<close>
  with \<open>0 < N \<le> 50\<close>), the explicit path has none: on the text
  \<open>100 years of experience\<close> the extractor returns \<open>100+ years\<close>.
\<close>

theorem experience_explicit_unbounded:
  "extract_experience env_ok ''100 years of experience'' = Inr (Some ''100+ years'') \<and>
   show_nat 100 @ ''+ years'' = ''100+ years''"
  by code_simp

section \<open>The constants of the confidence scorer\<close>

lemma truthy_iff:
  assumes "\<And>s. v = Some s \<Longrightarrow> s \<noteq> []"
  shows "truthy v \<longleftrightarrow> v \<noteq> None"
  using assms by (cases v) (auto simp: truthy_def)

lemma score_lookup:
  "map_of (calculate_confidence_scores parsed tx) ''name'' =
     Some (if truthy (name parsed) \<and> 2 \<le> length (py_split (the (name parsed))) then 9 / 10
           else if truthy (name parsed) then 6 / 10 else 1 / 10)"
  "map_of (calculate_confidence_scores parsed tx) ''email'' =
     Some (if truthy (email parsed) then 95 / 100 else 0)"
  "map_of (calculate_confidence_scores parsed tx) ''phone'' =
     Some (if truthy (phone parsed) then 85 / 100 else 0)"
  "map_of (calculate_confidence_scores parsed tx) ''skills'' =
     Some (if 5 \<le> length (skills parsed) then 9 / 10
           else if 3 \<le> length (skills parsed) then 7 / 10
           else if 1 \<le> length (skills parsed) then 5 / 10 else 1 / 10)"
  "map_of (calculate_confidence_scores parsed tx) ''experience'' =
     Some (if truthy (experience parsed) then 8 / 10 else 3 / 10)"
  "map_of (calculate_confidence_scores parsed tx) ''education'' =
     Some (if truthy (education parsed) then 8 / 10 else 2 / 10)"
  by (simp_all add: calculate_confidence_scores_def Let_def)

text \<open>
  Claim C6. For the fields that the extractors of the class produce on any text, the
  scorer assigns: to \<open>name\<close> 0.9 when the name has at least two tokens, 0.6 when it is
  present with fewer (a name that is present has at least one token), and 0.1 when it is
  absent; to \<open>email\<close> 0.95 when present and 0.0 when absent; to \<open>phone\<close> 0.85 or 0.0; to
  \<open>skills\<close> 0.9 for five or more skills, 0.7 for three or four, 0.5 for one or two and 0.1
  for none; to \<open>experience\<close> 0.8 or 0.3; to \<open>education\<close> 0.8 or 0.2. Present means that the
  field is not None: no extractor returns the empty string. These scores are the ones in
  the profile that \<open>parse_resume\<close> returns for a text that is not blank.
\<close>

theorem confidence_constants:
  assumes "extract_fields (self_methods self e) tx = Inr parsed"
  shows "map_of (calculate_confidence_scores parsed tx) ''name'' =
           Some (case name parsed of None \<Rightarrow> 1 / 10
                 | Some n \<Rightarrow> if 2 \<le> length (py_split n) then 9 / 10 else 6 / 10) \<and>
         (case name parsed of None \<Rightarrow> True | Some n \<Rightarrow> 1 \<le> length (py_split n)) \<and>
         map_of (calculate_confidence_scores parsed tx) ''email'' =
           Some (if email parsed = None then 0 else 95 / 100) \<and>
         map_of (calculate_confidence_scores parsed tx) ''phone'' =
           Some (if phone parsed = None then 0 else 85 / 100) \<and>
         map_of (calculate_confidence_scores parsed tx) ''skills'' =
           Some (if 5 \<le> length (skills parsed) then 9 / 10
                 else if 3 \<le> length (skills parsed) then 7 / 10
                 else if 1 \<le> length (skills parsed) then 5 / 10 else 1 / 10) \<and>
         map_of (calculate_confidence_scores parsed tx) ''experience'' =
           Some (if experience parsed = None then 3 / 10 else 8 / 10) \<and>
         map_of (calculate_confidence_scores parsed tx) ''education'' =
           Some (if education parsed = None then 2 / 10 else 8 / 10) \<and>
         (extract_text_from_file e p = Inr tx \<and> py_strip tx \<noteq> [] \<longrightarrow>
            parse_resume self e p =
              Inr (parsed\<lparr>confidence_scores := calculate_confidence_scores parsed tx\<rparr>))"
proof -
  note f = extract_fields_Inr[OF assms, unfolded self_methods_simps]
  have n: "truthy (name parsed) \<longleftrightarrow> name parsed \<noteq> None"
    using f(1) extract_name_nonempty by (intro truthy_iff) auto
  have nt: "case name parsed of None \<Rightarrow> True | Some n \<Rightarrow> 1 \<le> length (py_split n)"
    using f(1) extract_name_tokens by (auto split: option.splits)
  have em: "truthy (email parsed) \<longleftrightarrow> email parsed \<noteq> None"
    using f(2) extract_email_nonempty by (intro truthy_iff) auto
  have ph: "truthy (phone parsed) \<longleftrightarrow> phone parsed \<noteq> None"
    using f(3) extract_phone_nonempty by (intro truthy_iff) auto
  have ex: "truthy (experience parsed) \<longleftrightarrow> experience parsed \<noteq> None"
    using f(5) experience_nonempty by (intro truthy_iff) auto
  have ed: "truthy (education parsed) \<longleftrightarrow> education parsed \<noteq> None"
    using f(6) extract_education_nonempty by (intro truthy_iff) auto
  have s1: "map_of (calculate_confidence_scores parsed tx) ''name'' =
           Some (case name parsed of None \<Rightarrow> 1 / 10
                 | Some n \<Rightarrow> if 2 \<le> length (py_split n) then 9 / 10 else 6 / 10)"
    unfolding score_lookup(1) n by (cases "name parsed") simp_all
  have l: "extract_text_from_file e p = Inr tx \<and> py_strip tx \<noteq> [] \<longrightarrow>
            parse_resume self e p =
              Inr (parsed\<lparr>confidence_scores := calculate_confidence_scores parsed tx\<rparr>)"
    using assms
    by (simp add: parse_resume_def parse_resume_with_def parse_resume_body_def and_then_def
        try_except_def)
  show ?thesis
    using s1 nt l score_lookup(2-6)[of parsed tx] em ph ex ed by simp
qed

lemma score_name: "extract_name score_text = Inr (Some ''Al Bo'')"
  by code_simp

lemma score_tokens: "py_split ''Al Bo'' = [''Al'', ''Bo'']"
  by code_simp

lemma score_loader: "extract_text_from_file env_score ''resume.docx'' = Inr score_text"
  by code_simp

lemma score_experience: "extract_experience env_score score_text = Inr (Some ''9+ years'')"
  by code_simp

lemma score_email: "extract_email score_text = None"
  by code_simp

lemma score_phone: "extract_phone score_text = None"
  by code_simp

lemma score_education: "extract_education score_text = None"
  by code_simp

lemma score_strip: "py_strip score_text \<noteq> []"
proof -
  have "\<not> py_isspace CHR ''A''" by code_simp
  then have "\<not> (\<forall>c \<in> set score_text. py_isspace c)" by (auto simp: score_text_def)
  then show ?thesis by (simp add: py_strip_Nil_iff)
qed

text \<open>
  The scorer on a text with a name of two tokens and an experience phrase, without email,
  phone or education.
\<close>

theorem confidence_constants_witness:
  "\<exists>parsed. extract_fields (self_methods parser0 env_score) score_text = Inr parsed \<and>
     name parsed = Some ''Al Bo'' \<and> email parsed = None \<and> phone parsed = None \<and>
     experience parsed = Some ''9+ years'' \<and> education parsed = None \<and>
     map_of (calculate_confidence_scores parsed score_text) ''name'' = Some (9 / 10) \<and>
     map_of (calculate_confidence_scores parsed score_text) ''email'' = Some 0 \<and>
     map_of (calculate_confidence_scores parsed score_text) ''phone'' = Some 0 \<and>
     map_of (calculate_confidence_scores parsed score_text) ''experience'' = Some (8 / 10) \<and>
     map_of (calculate_confidence_scores parsed score_text) ''education'' = Some (2 / 10) \<and>
     parse_resume parser0 env_score ''resume.docx'' =
       Inr (parsed\<lparr>confidence_scores := calculate_confidence_scores parsed score_text\<rparr>)"
proof -
  from parse_resume_fields[OF score_loader score_strip score_experience, of parser0]
  obtain parsed where f: "extract_fields (self_methods parser0 env_score) score_text = Inr parsed"
    by blast
  note g = extract_fields_Inr[OF f, unfolded self_methods_simps]
  from g(1) score_name have n: "name parsed = Some ''Al Bo''" by simp
  from g(2) score_email have m: "email parsed = None" by simp
  from g(3) score_phone have h: "phone parsed = None" by simp
  from g(5) score_experience have x: "experience parsed = Some ''9+ years''" by simp
  from g(6) score_education have d: "education parsed = None" by simp
  from confidence_constants[OF f, of "''resume.docx''"] n m h x d score_tokens score_loader
    score_strip f
  show ?thesis by (intro exI[of _ parsed]) simp
qed

end
